theory Spec2Isabelle
  imports Complex_Main
begin

section \<open>Errors\<close>

text \<open>
  Every exception the modelled Python code can raise is a value of this type, and every
  function that can raise returns \<open>error + 'a\<close> with \<open>Inl\<close> for the exception.
\<close>

datatype error =
    AssertionError
  | ValueError
  | TypeError
  | AttributeError
  | ZeroDivisionError
  | UnboundLocalError
  | EmptyAxis

section \<open>Arrays of the loss functions (rl/loss.py)\<close>

text \<open>
  An array is its shape and its elements in row-major order. Floating-point numbers are
  idealised as reals: rounding, infinities and NaN are outside this model.
\<close>

datatype 'a ndarray = NDArray (shape: "nat list") (data: "'a list")

definition wf_array :: "'a ndarray \<Rightarrow> bool" where
  "wf_array a = (length (data a) = prod_list (shape a))"

text \<open>\<open>chex.assert_equal_shape\<close>: every array has the shape of the first one.\<close>

definition assert_equal_shape :: "'a ndarray list \<Rightarrow> error + unit" where
  "assert_equal_shape xs =
     (case xs of
        [] \<Rightarrow> Inr ()
      | x # rest \<Rightarrow> if list_all (\<lambda>y. shape y = shape x) rest then Inr () else Inl AssertionError)"

text \<open>
  Element-wise operations. They are only used on arrays whose shapes were asserted equal
  (or with a scalar), so no broadcasting rule is needed.
\<close>

definition elementwise :: "(real \<Rightarrow> real) \<Rightarrow> real ndarray \<Rightarrow> real ndarray" where
  "elementwise f a = NDArray (shape a) (map f (data a))"

definition elementwise2 :: "(real \<Rightarrow> real \<Rightarrow> real) \<Rightarrow> real ndarray \<Rightarrow> real ndarray \<Rightarrow> real ndarray" where
  "elementwise2 f a b = NDArray (shape a) (map2 f (data a) (data b))"

text \<open>\<open>jnp.clip(x, lo, hi)\<close> is \<open>minimum(hi, maximum(x, lo))\<close>.\<close>

definition clip :: "real \<Rightarrow> real \<Rightarrow> real \<Rightarrow> real" where
  "clip x lo hi = min hi (max x lo)"

text \<open>
  \<open>jnp.fmin(a, b) = where((a < b) | isnan(b), a, b)\<close> and
  \<open>jnp.fmax(a, b) = where((a > b) | isnan(b), a, b)\<close>, without the NaN case.
\<close>

definition fmin :: "real \<Rightarrow> real \<Rightarrow> real" where
  "fmin a b = (if a < b then a else b)"

definition fmax :: "real \<Rightarrow> real \<Rightarrow> real" where
  "fmax a b = (if a > b then a else b)"

text \<open>
  \<open>jnp.mean\<close> over all elements. On an empty array JAX returns NaN; here the quotient
  is the real \<open>0 / 0 = 0\<close>.
\<close>

definition jnp_mean :: "real ndarray \<Rightarrow> real" where
  "jnp_mean a = sum_list (data a) / real (length (data a))"

text \<open>\<open>jax.lax.stop_gradient\<close> is the identity on values.\<close>

definition stop_gradient :: "real \<Rightarrow> real" where
  "stop_gradient x = x"

record infos_policy =
  loss_policy :: real
  entropy :: "real ndarray"
  kl_divergence :: real

text \<open>
  \<open>loss_policy_ppo_discrete\<close>. The entropy of \<open>distrax.Categorical(logits=logits)\<close> comes
  from a library outside the repository and is the parameter \<open>categorical_entropy\<close>.
\<close>

definition loss_policy_ppo_discrete ::
  "(real ndarray \<Rightarrow> real ndarray) \<Rightarrow> real ndarray \<Rightarrow> real ndarray \<Rightarrow> real ndarray \<Rightarrow>
   real ndarray \<Rightarrow> real \<Rightarrow> real \<Rightarrow> error + (real \<times> infos_policy)" where
  "loss_policy_ppo_discrete categorical_entropy logits log_probs log_probs_old gaes clip_eps entropy_coef =
     (case assert_equal_shape [log_probs, log_probs_old, gaes] of
        Inl e \<Rightarrow> Inl e
      | Inr _ \<Rightarrow>
          (let log_ratios = elementwise2 (-) log_probs log_probs_old;
               ratios = elementwise exp log_ratios;
               ratios_clip = elementwise (\<lambda>r. clip r (1 - clip_eps) (1 + clip_eps)) ratios;
               loss_p = - jnp_mean (elementwise2 fmin (elementwise2 (*) ratios gaes)
                                                     (elementwise2 (*) ratios_clip gaes));
               ent = categorical_entropy logits;
               loss_entropy = - jnp_mean ent;
               kl = stop_gradient
                      (jnp_mean (elementwise2 (-) (elementwise (\<lambda>r. r - 1) ratios) log_ratios))
           in Inr (loss_p + entropy_coef * loss_entropy,
                   \<lparr>loss_policy = loss_p, entropy = ent, kl_divergence = kl\<rparr>)))"

text \<open>
  The same lines 29, 30 and 38 in forward mode: every number is a pair of its value and
  its tangent (the directional derivative JAX propagates). Subtraction and the mean are
  linear, \<open>exp\<close> scales the tangent by its value, and \<open>stop_gradient\<close> keeps the value
  and sets the tangent to zero.
\<close>

type_synonym dual = "real \<times> real"

definition dual_sub :: "dual \<Rightarrow> dual \<Rightarrow> dual" where
  "dual_sub a b = (fst a - fst b, snd a - snd b)"

definition dual_exp :: "dual \<Rightarrow> dual" where
  "dual_exp a = (exp (fst a), exp (fst a) * snd a)"

definition dual_mean :: "dual list \<Rightarrow> dual" where
  "dual_mean xs = (sum_list (map fst xs) / real (length xs), sum_list (map snd xs) / real (length xs))"

definition dual_stop_gradient :: "dual \<Rightarrow> dual" where
  "dual_stop_gradient a = (fst a, 0)"

definition kl_mean_jvp :: "dual list \<Rightarrow> dual list \<Rightarrow> dual" where
  "kl_mean_jvp log_probs log_probs_old =
     (let log_ratios = map2 dual_sub log_probs log_probs_old;
          ratios = map dual_exp log_ratios
      in dual_mean (map2 dual_sub (map (\<lambda>r. dual_sub r (1, 0)) ratios) log_ratios))"

definition kl_divergence_jvp :: "dual list \<Rightarrow> dual list \<Rightarrow> dual" where
  "kl_divergence_jvp log_probs log_probs_old =
     dual_stop_gradient (kl_mean_jvp log_probs log_probs_old)"

record infos_value =
  loss_value :: real

text \<open>\<open>loss_value_clip\<close>.\<close>

definition loss_value_clip ::
  "real ndarray \<Rightarrow> real ndarray \<Rightarrow> real ndarray \<Rightarrow> real \<Rightarrow> error + (real \<times> infos_value)" where
  "loss_value_clip values targets values_old clip_eps =
     (case assert_equal_shape [values, values_old, targets] of
        Inl e \<Rightarrow> Inl e
      | Inr _ \<Rightarrow>
          (let values_clip0 = elementwise (\<lambda>d. clip d (- clip_eps) clip_eps)
                                (elementwise2 (-) values values_old);
               values_clip = elementwise2 (+) values_clip0 values_old;
               loss_value_unclip = elementwise (\<lambda>x. x\<^sup>2) (elementwise2 (-) values targets);
               loss_value_clipped = elementwise (\<lambda>x. x\<^sup>2) (elementwise2 (-) values_clip targets);
               loss_v = jnp_mean (elementwise2 fmax loss_value_unclip loss_value_clipped)
           in Inr (loss_v, \<lparr>loss_value = loss_v\<rparr>)))"

text \<open>
  The formulas of the specification, written per element \<open>i\<close> over the flattened arrays
  and with the library's own sum, minimum and maximum. Clipping to an interval is written
  out: below the lower bound the lower bound, above the upper bound the upper bound, the
  value itself in between.
\<close>

definition spec_clamp :: "real \<Rightarrow> real \<Rightarrow> real \<Rightarrow> real" where
  "spec_clamp x lo hi = (if x < lo then lo else if hi < x then hi else x)"

definition spec_mean :: "real list \<Rightarrow> real" where
  "spec_mean xs = (\<Sum>i<length xs. xs ! i) / real (length xs)"

definition spec_ratio :: "real list \<Rightarrow> real list \<Rightarrow> nat \<Rightarrow> real" where
  "spec_ratio lp lpo i = exp (lp ! i - lpo ! i)"

definition spec_policy_loss :: "real list \<Rightarrow> real list \<Rightarrow> real list \<Rightarrow> real \<Rightarrow> real" where
  "spec_policy_loss lp lpo adv eps =
     - ((\<Sum>i<length adv. min (spec_ratio lp lpo i * adv ! i)
                             (spec_clamp (spec_ratio lp lpo i) (1 - eps) (1 + eps) * adv ! i))
        / real (length adv))"

definition spec_kl_estimate :: "real list \<Rightarrow> real list \<Rightarrow> real" where
  "spec_kl_estimate lp lpo =
     (\<Sum>i<length lp. (spec_ratio lp lpo i - 1) - (lp ! i - lpo ! i)) / real (length lp)"

text \<open>
  The derivative of that estimate along the tangents \<open>tn\<close> and \<open>tno\<close> of the two
  log-probability arrays, as calculus gives it.
\<close>

definition spec_kl_tangent :: "real list \<Rightarrow> real list \<Rightarrow> real list \<Rightarrow> real list \<Rightarrow> real" where
  "spec_kl_tangent lp lpo tn tno =
     (\<Sum>i<length lp. (spec_ratio lp lpo i - 1) * (tn ! i - tno ! i)) / real (length lp)"

definition spec_value_loss :: "real list \<Rightarrow> real list \<Rightarrow> real list \<Rightarrow> real \<Rightarrow> real" where
  "spec_value_loss v tg vo eps =
     (\<Sum>i<length v. max ((v ! i - tg ! i)\<^sup>2)
                        ((vo ! i + spec_clamp (v ! i - vo ! i) (- eps) eps - tg ! i)\<^sup>2))
     / real (length v)"

section \<open>Values and discounts of the advantage estimator (rl/algos/ippo.py)\<close>

text \<open>
  The fields of the configuration and of the parameters that the modelled functions read.
  The field \<open>_lambda\<close> of the source is \<open>lambda\<close> here.
\<close>

record config =
  gamma :: real
  lambda :: real
  normalize :: bool
  num_epochs :: int

record ('pe, 'pv) params_policy_value =
  params_encoder :: 'pe
  params_value :: 'pv

text \<open>\<open>x[-1:]\<close>: the last entry along the first axis as an array of length one, or
  nothing when the array is empty.\<close>

definition last_slice :: "'a list \<Rightarrow> 'a list" where
  "last_slice xs = (if xs = [] then [] else [last xs])"

text \<open>
  \<open>compute_values_gaes\<close> for one environment. An array with a leading time axis is the list
  of its entries along that axis; \<open>dones\<close> and \<open>rewards\<close> have shape \<open>(T,)\<close>, and
  \<open>x[..., None]\<close> turns each number into a row of length one. The networks
  \<open>train_state.encoder_fn\<close>, \<open>train_state.value_fn\<close> and the estimator
  \<open>calculate_gaes_targets\<close> (module \<open>rl.timesteps\<close>) are parameters.

  \<open>gae_arguments\<close> is lines 36 to 46: the four arrays handed to \<open>calculate_gaes_targets\<close>.
\<close>

definition gae_arguments ::
  "('pe \<Rightarrow> 'o list \<Rightarrow> 'h list) \<Rightarrow> ('pv \<Rightarrow> 'h list \<Rightarrow> 'v list) \<Rightarrow> config \<Rightarrow>
   ('pe, 'pv) params_policy_value \<Rightarrow> 'o list \<Rightarrow> 'o list \<Rightarrow> real list \<Rightarrow> real list \<Rightarrow>
   'v list \<times> 'v list \<times> real list list \<times> real list list" where
  "gae_arguments encoder_fn value_fn cfg params observations next_observations dones rewards =
     (let all_obs = observations @ last_slice next_observations;
          all_hiddens = encoder_fn (params_encoder params) all_obs;
          all_values = value_fn (params_value params) all_hiddens;
          values = butlast all_values;
          next_values = tl all_values;
          not_dones = map (\<lambda>d. [1 - d]) dones;
          discounts = map (map (\<lambda>x. gamma cfg * x)) not_dones;
          rewards1 = map (\<lambda>r. [r]) rewards
      in (values, next_values, discounts, rewards1))"

definition compute_values_gaes ::
  "('pe \<Rightarrow> 'o list \<Rightarrow> 'h list) \<Rightarrow> ('pv \<Rightarrow> 'h list \<Rightarrow> 'v list) \<Rightarrow>
   ('v list \<Rightarrow> 'v list \<Rightarrow> real list list \<Rightarrow> real list list \<Rightarrow> real \<Rightarrow> bool \<Rightarrow> 'g \<times> 'g) \<Rightarrow> config \<Rightarrow>
   ('pe, 'pv) params_policy_value \<Rightarrow> 'o list \<Rightarrow> 'o list \<Rightarrow> real list \<Rightarrow> real list \<Rightarrow>
   'g \<times> 'g \<times> 'v list" where
  "compute_values_gaes encoder_fn value_fn calculate_gaes_targets cfg params
       observations next_observations dones rewards =
     (case gae_arguments encoder_fn value_fn cfg params observations next_observations dones rewards of
        (values, next_values, discounts, rewards1) \<Rightarrow>
          (case calculate_gaes_targets values next_values discounts rewards1 (lambda cfg) (normalize cfg) of
             (gaes, targets) \<Rightarrow> (gaes, targets, values)))"

section \<open>The update loop and the action sampling of PPO (rl/algos/ippo.py)\<close>

text \<open>
  \<open>jax.random.split(key, num)\<close> returns \<open>num\<close> new keys. The generator is outside the
  repository: \<open>prng key num i\<close> stands for the \<open>i\<close>-th of the \<open>num\<close> keys split from \<open>key\<close>.
\<close>

definition random_split :: "('key \<Rightarrow> nat \<Rightarrow> nat \<Rightarrow> 'key) \<Rightarrow> 'key \<Rightarrow> nat \<Rightarrow> 'key list" where
  "random_split prng key num = map (prng key num) [0..<num]"

text \<open>
  The train state holds the parameters and the optimizer's state. A diagnostics
  dictionary maps names to scalars or arrays.
\<close>

record ('p, 'o) train_state =
  params :: 'p
  opt_state :: 'o

datatype info_value = Scalar real | Array "real ndarray"

type_synonym info = "string \<Rightarrow> info_value option"

text \<open>
  The loop of \<open>PPO.update\<close> (lines 148 to 151), on the variables \<open>state\<close>, \<open>key\<close>, \<open>loss\<close> and
  \<open>info\<close>; \<open>info\<close> is unbound (\<open>None\<close>) until the first pass.
\<close>

fun update_epochs ::
  "('s \<Rightarrow> 'key \<Rightarrow> 'e \<Rightarrow> 's \<times> real \<times> info) \<Rightarrow> ('key \<Rightarrow> nat \<Rightarrow> nat \<Rightarrow> 'key) \<Rightarrow> 'e \<Rightarrow> nat \<Rightarrow>
   's \<times> 'key \<times> real \<times> info option \<Rightarrow> 's \<times> 'key \<times> real \<times> info option" where
  "update_epochs update_step_fn prng experiences 0 vars = vars"
| "update_epochs update_step_fn prng experiences (Suc n) (state, key, loss, info) =
     (let keys = random_split prng key 2;
          key1 = keys ! 0;
          k = keys ! 1
      in case update_step_fn state k experiences of
           (state1, l, info1) \<Rightarrow>
             update_epochs update_step_fn prng experiences n (state1, key1, loss + l, Some info1))"

text \<open>
  The inner function \<open>fn\<close> of \<open>PPO.update\<close>, which \<open>update\<close> calls with \<open>self.state\<close>,
  \<open>self.nextkey()\<close> and \<open>buffer.sample()\<close> and whose state it stores back. With
  \<open>num_epochs = 0\<close> the float \<open>loss = 0.0\<close> is divided by zero; with a negative
  \<open>num_epochs\<close> the loop does not run and \<open>info\<close> is read unbound.
\<close>

definition update_fn ::
  "('p \<Rightarrow> 'b \<Rightarrow> 'e) \<Rightarrow> (('p, 'o) train_state \<Rightarrow> 'key \<Rightarrow> 'e \<Rightarrow> ('p, 'o) train_state \<times> real \<times> info) \<Rightarrow>
   ('key \<Rightarrow> nat \<Rightarrow> nat \<Rightarrow> 'key) \<Rightarrow> config \<Rightarrow> ('p, 'o) train_state \<Rightarrow> 'key \<Rightarrow> 'b \<Rightarrow>
   error + (('p, 'o) train_state \<times> info)" where
  "update_fn process_experience_fn update_step_fn prng cfg state key sample =
     (let experiences = process_experience_fn (params state) sample
      in case update_epochs update_step_fn prng experiences (nat (num_epochs cfg)) (state, key, 0, None) of
           (state1, key1, loss, info) \<Rightarrow>
             if num_epochs cfg = 0 then Inl ZeroDivisionError
             else (case info of
                     None \<Rightarrow> Inl UnboundLocalError
                   | Some i \<Rightarrow>
                       Inr (state1, i(''total_loss'' \<mapsto> Scalar (loss / real_of_int (num_epochs cfg))))))"

text \<open>
  The epochs one after the other, as the specification counts them: the key carried into
  epoch \<open>i\<close>, the sub-key drawn in it, the state before it, and the loss and diagnostics
  its gradient step returns.
\<close>

fun carried_key :: "('key \<Rightarrow> nat \<Rightarrow> nat \<Rightarrow> 'key) \<Rightarrow> 'key \<Rightarrow> nat \<Rightarrow> 'key" where
  "carried_key prng key 0 = key"
| "carried_key prng key (Suc i) = prng (carried_key prng key i) 2 0"

definition epoch_subkey :: "('key \<Rightarrow> nat \<Rightarrow> nat \<Rightarrow> 'key) \<Rightarrow> 'key \<Rightarrow> nat \<Rightarrow> 'key" where
  "epoch_subkey prng key i = prng (carried_key prng key i) 2 1"

fun epoch_state ::
  "('s \<Rightarrow> 'key \<Rightarrow> 'e \<Rightarrow> 's \<times> real \<times> info) \<Rightarrow> ('key \<Rightarrow> nat \<Rightarrow> nat \<Rightarrow> 'key) \<Rightarrow> 'e \<Rightarrow> 's \<Rightarrow> 'key \<Rightarrow> nat \<Rightarrow> 's" where
  "epoch_state update_step_fn prng experiences state key 0 = state"
| "epoch_state update_step_fn prng experiences state key (Suc i) =
     fst (update_step_fn (epoch_state update_step_fn prng experiences state key i)
            (epoch_subkey prng key i) experiences)"

definition epoch_loss ::
  "('s \<Rightarrow> 'key \<Rightarrow> 'e \<Rightarrow> 's \<times> real \<times> info) \<Rightarrow> ('key \<Rightarrow> nat \<Rightarrow> nat \<Rightarrow> 'key) \<Rightarrow> 'e \<Rightarrow> 's \<Rightarrow> 'key \<Rightarrow> nat \<Rightarrow> real" where
  "epoch_loss update_step_fn prng experiences state key i =
     fst (snd (update_step_fn (epoch_state update_step_fn prng experiences state key i)
                 (epoch_subkey prng key i) experiences))"

definition epoch_info ::
  "('s \<Rightarrow> 'key \<Rightarrow> 'e \<Rightarrow> 's \<times> real \<times> info) \<Rightarrow> ('key \<Rightarrow> nat \<Rightarrow> nat \<Rightarrow> 'key) \<Rightarrow> 'e \<Rightarrow> 's \<Rightarrow> 'key \<Rightarrow> nat \<Rightarrow> info" where
  "epoch_info update_step_fn prng experiences state key i =
     snd (snd (update_step_fn (epoch_state update_step_fn prng experiences state key i)
                 (epoch_subkey prng key i) experiences))"


section \<open>Lifting to vectorized and parallel environments (rl_tools/algos/factory.py)\<close>

subsection \<open>Dictionaries and results\<close>

text \<open>
  A dictionary is the list of its items in iteration order, with distinct keys. A lookup
  is only made for a key that is present.
\<close>

type_synonym ('k, 'v) dict = "('k \<times> 'v) list"

definition dict_get :: "('k, 'v) dict \<Rightarrow> 'k \<Rightarrow> 'v" where
  "dict_get d k = the (map_of d k)"

text \<open>
  \<open>jax.jit\<close> hands the arguments to the function as pytrees and rebuilds every dictionary
  with its keys in sorted order. Inside a jitted function the items of a dictionary
  therefore come in sorted order of their keys, whatever the order of insertion was.
\<close>

definition sorted_items :: "('k :: linorder, 'v) dict \<Rightarrow> ('k, 'v) dict" where
  "sorted_items d = map (\<lambda>k. (k, dict_get d k)) (sort (map fst d))"

text \<open>Running a list of computations that may fail: the first failure is the result.\<close>

fun sequence :: "(error + 'a) list \<Rightarrow> error + 'a list" where
  "sequence [] = Inr []"
| "sequence (x # xs) =
     (case x of
        Inl e \<Rightarrow> Inl e
      | Inr v \<Rightarrow> (case sequence xs of Inl e \<Rightarrow> Inl e | Inr vs \<Rightarrow> Inr (v # vs)))"

subsection \<open>The action-sampling lift\<close>

text \<open>
  \<open>jnp.expand_dims(x, axis=0)\<close> and \<open>jnp.squeeze(x, axis=0)\<close>; the latter fails unless the
  first axis exists and has size one. A tuple of arrays is the list of its leaves, and
  \<open>jax.tree_map\<close> of a function of one array maps it over the leaves.
\<close>

definition expand_dims0 :: "'a ndarray \<Rightarrow> 'a ndarray" where
  "expand_dims0 a = NDArray (1 # shape a) (data a)"

definition squeeze0 :: "'a ndarray \<Rightarrow> error + 'a ndarray" where
  "squeeze0 a =
     (case shape a of
        [] \<Rightarrow> Inl ValueError
      | d # ds \<Rightarrow> if d = 1 then Inr (NDArray ds (data a)) else Inl ValueError)"

definition input_fn :: "bool \<Rightarrow> 'a ndarray list \<Rightarrow> 'a ndarray list" where
  "input_fn vectorized inputs = (if \<not> vectorized then map expand_dims0 inputs else inputs)"

definition output_fn :: "bool \<Rightarrow> 'b ndarray list \<Rightarrow> error + 'b ndarray list" where
  "output_fn vectorized outputs =
     (if \<not> vectorized then sequence (map squeeze0 outputs) else Inr outputs)"

text \<open>
  \<open>explore_general_factory\<close>. The wrapper \<open>fn_parallel\<close> (lines 27 to 42) only enters when
  \<open>parallel\<close> holds; it is passed in as it is, and nothing below depends on what it does.
  \<open>jax.jit\<close> does not change the result of a pure function.
\<close>

definition explore_general_factory ::
  "(('s \<Rightarrow> 'key \<Rightarrow> 'a ndarray list \<Rightarrow> 'b ndarray list) \<Rightarrow> 's \<Rightarrow> 'key \<Rightarrow> 'a ndarray list \<Rightarrow> 'b ndarray list) \<Rightarrow>
   ('s \<Rightarrow> 'key \<Rightarrow> 'a ndarray list \<Rightarrow> 'b ndarray list) \<Rightarrow> bool \<Rightarrow> bool \<Rightarrow>
   's \<Rightarrow> 'key \<Rightarrow> 'a ndarray list \<Rightarrow> error + 'b ndarray list" where
  "explore_general_factory fn_parallel explore_fn vectorized parallel state key trees =
     (let inputs = input_fn vectorized trees;
          explore_fn1 = (if parallel then fn_parallel explore_fn else explore_fn);
          results = explore_fn1 state key inputs
      in output_fn vectorized results)"

subsection \<open>The experience-processing lift\<close>

text \<open>
  Arrays of the experience. Only the first axis (time) and, when the environments are
  vectorized, the second axis (environment) matter here: an array seen along its first
  axis is the list of its entries, and an array seen along its first two axes is the list
  of its rows, each the list of its entries along the second axis, together with the size
  of the second axis (which the rows alone do not give when there is no row).
  The entries themselves stand for the remaining axes.
\<close>

datatype 'x arr = Arr (dim1: nat) (rows: "'x list list")

definition wf_arr :: "'x arr \<Rightarrow> bool" where
  "wf_arr a = (\<forall>r\<in>set (rows a). length r = dim1 a)"

text \<open>
  A field of the stacked experience is an array or, with parallel agents, a dictionary
  from agent to array.
\<close>

datatype ('k, 'x) pytree =
    Array1 "'x list"
  | Array2 "'x arr"
  | Dict1 "('k, 'x list) dict"
  | Dict2 "('k, 'x arr) dict"

text \<open>
  The experience is a named tuple with a field \<open>observation\<close>; \<open>*experience\<close> lists its
  fields and \<open>experience_type(*fields)\<close> builds it again.
\<close>

record 'f experience =
  observation :: 'f
  others :: "'f list"

definition unpack :: "'f experience \<Rightarrow> 'f list" where
  "unpack ex = observation ex # others ex"

definition experience_type :: "'f list \<Rightarrow> 'f experience" where
  "experience_type flds = \<lparr>observation = hd flds, others = tl flds\<rparr>"

text \<open>\<open>_process_experience_fn\<close>, on the fields of one agent in one environment.\<close>

definition inner_process_experience_fn ::
  "('s \<Rightarrow> 'key \<Rightarrow> ('k, 'x) pytree experience \<Rightarrow> 'y list list) \<Rightarrow> 's \<Rightarrow> 'key \<Rightarrow> 'x list list \<Rightarrow> 'y list list" where
  "inner_process_experience_fn process_experience_fn state key flds =
     process_experience_fn state key (experience_type (map Array1 flds))"

text \<open>
  \<open>jax.vmap(f, in_axes=1, out_axes=1)(keys, *flds)\<close>: all arguments must have the same
  size \<open>n\<close> along axis 1; \<open>f\<close> runs on the \<open>e\<close>-th key and the \<open>e\<close>-th column of every field,
  and entry \<open>(d, e)\<close> of an output is entry \<open>d\<close> of the output for \<open>e\<close>. JAX traces \<open>f\<close> once, so
  all outputs have the shape of the first. With \<open>n = 0\<close> there is no run to take that
  shape from: this case is not modelled and reported as \<open>EmptyAxis\<close>.
\<close>

definition column :: "nat \<Rightarrow> 'x arr \<Rightarrow> 'x list" where
  "column e a = map (\<lambda>r. r ! e) (rows a)"

definition vmap_axis1 ::
  "('key \<Rightarrow> 'x list list \<Rightarrow> 'y list list) \<Rightarrow> 'key list \<Rightarrow> 'x arr list \<Rightarrow> error + 'y arr list" where
  "vmap_axis1 f keys flds =
     (let n = length keys
      in if \<exists>a\<in>set flds. dim1 a \<noteq> n then Inl ValueError
         else if n = 0 then Inl EmptyAxis
         else (let outs = map (\<lambda>e. f (keys ! e) (map (column e) flds)) [0..<n];
                   first = hd outs
               in Inr (map (\<lambda>c. Arr n (map (\<lambda>d. map (\<lambda>out. out ! c ! d) outs)
                                           [0..<length (first ! c)]))
                         [0..<length first])))"

text \<open>
  \<open>jax.tree_map(f, d, *ds)\<close> on dictionaries with array leaves: all dictionaries must have
  the keys of the first; \<open>f\<close> runs on the values of each key, the keys taken in sorted
  order, and the result is a dictionary in that order.
\<close>

definition tree_map_dict ::
  "('a \<Rightarrow> 'b list \<Rightarrow> error + 'c) \<Rightarrow> ('k :: linorder, 'a) dict \<Rightarrow> ('k, 'b) dict list \<Rightarrow> error + ('k, 'c) dict" where
  "tree_map_dict f d ds =
     (if \<exists>d'\<in>set ds. set (map fst d') \<noteq> set (map fst d) then Inl ValueError
      else sequence (map (\<lambda>k. case f (dict_get d k) (map (\<lambda>d'. dict_get d' k) ds) of
                                 Inl e \<Rightarrow> Inl e
                               | Inr v \<Rightarrow> Inr (k, v))
                         (sort (map fst d))))"

text \<open>
  \<open>jax.tree_map(g, *zip(outputs.values()))[0]\<close>: the outputs of all agents are tuples of the
  same length, and \<open>g\<close> runs on the \<open>c\<close>-th leaves of all agents.
\<close>

definition tree_map_outputs :: "('l list \<Rightarrow> error + 'r) \<Rightarrow> 'l list list \<Rightarrow> error + 'r list" where
  "tree_map_outputs g outs =
     (case outs of
        [] \<Rightarrow> Inl TypeError
      | first # rest \<Rightarrow>
          if \<exists>out\<in>set rest. length out \<noteq> length first then Inl ValueError
          else sequence (map (\<lambda>c. g (map (\<lambda>out. out ! c) outs)) [0..<length first]))"

text \<open>
  \<open>jnp.concatenate(x, axis=1)\<close> and \<open>jnp.stack(x, axis=1)\<close>, which need arrays of equal size
  along the first axis (and, to stack, of equal shape), and
  \<open>jnp.reshape(out, (-1, *out.shape[2:]))\<close>, which merges the first two axes row by row.
\<close>

definition concatenate_axis1 :: "'y arr list \<Rightarrow> error + 'y arr" where
  "concatenate_axis1 xs =
     (case xs of
        [] \<Rightarrow> Inl ValueError
      | x # rest \<Rightarrow>
          if \<exists>y\<in>set rest. length (rows y) \<noteq> length (rows x) then Inl TypeError
          else Inr (Arr (sum_list (map dim1 xs))
                        (map (\<lambda>d. concat (map (\<lambda>y. rows y ! d) xs)) [0..<length (rows x)])))"

definition stack_axis1 :: "'y list list \<Rightarrow> error + 'y arr" where
  "stack_axis1 xs =
     (case xs of
        [] \<Rightarrow> Inl ValueError
      | x # rest \<Rightarrow>
          if \<exists>y\<in>set rest. length y \<noteq> length x then Inl ValueError
          else Inr (Arr (length xs) (map (\<lambda>d. map (\<lambda>y. y ! d) xs) [0..<length x])))"

definition reshape_merge :: "'y arr \<Rightarrow> 'y list" where
  "reshape_merge a = concat (rows a)"

definition concat_and_reshape :: "'y arr list \<Rightarrow> error + 'y list" where
  "concat_and_reshape xs =
     (case concatenate_axis1 xs of Inl e \<Rightarrow> Inl e | Inr out \<Rightarrow> Inr (reshape_merge out))"

definition stack_and_reshape :: "'y list list \<Rightarrow> error + 'y list" where
  "stack_and_reshape xs =
     (case stack_axis1 xs of Inl e \<Rightarrow> Inl e | Inr out \<Rightarrow> Inr (reshape_merge out))"

text \<open>
  The two loops that split the keys (lines 83 to 86 and 104 to 106), over the items of
  the observation dictionary in the order given. With vectorized
  environments an agent gets the keys \<open>new_keys[1:]\<close>, one for each environment; swapping
  the axes of that array and mapping over axis 1 hands the \<open>e\<close>-th of them to environment
  \<open>e\<close>.
\<close>

fun agent_env_keys ::
  "('key \<Rightarrow> nat \<Rightarrow> nat \<Rightarrow> 'key) \<Rightarrow> 'key \<Rightarrow> ('k, 'x arr) dict \<Rightarrow> ('k, 'key list) dict" where
  "agent_env_keys prng key [] = []"
| "agent_env_keys prng key ((agent, obs) # rest) =
     (let new_keys = random_split prng key (dim1 obs + 1)
      in (agent, tl new_keys) # agent_env_keys prng (hd new_keys) rest)"

fun agent_keys ::
  "('key \<Rightarrow> nat \<Rightarrow> nat \<Rightarrow> 'key) \<Rightarrow> 'key \<Rightarrow> ('k, 'x list) dict \<Rightarrow> ('k, 'key) dict" where
  "agent_keys prng key [] = []"
| "agent_keys prng key ((agent, obs) # rest) =
     (let new_keys = random_split prng key 2
      in (agent, new_keys ! 1) # agent_keys prng (new_keys ! 0) rest)"

text \<open>The fields in the form a branch needs; a field of another form makes the branch fail.\<close>

fun the_dict2 :: "('k, 'x) pytree \<Rightarrow> error + ('k, 'x arr) dict" where
  "the_dict2 (Dict2 d) = Inr d"
| "the_dict2 _ = Inl AttributeError"

fun the_dict1 :: "('k, 'x) pytree \<Rightarrow> error + ('k, 'x list) dict" where
  "the_dict1 (Dict1 d) = Inr d"
| "the_dict1 _ = Inl AttributeError"

fun the_array2 :: "('k, 'x) pytree \<Rightarrow> error + 'x arr" where
  "the_array2 (Array2 a) = Inr a"
| "the_array2 _ = Inl AttributeError"

text \<open>
  \<open>process_experience_general_factory\<close>. \<open>stack_experiences\<close> (module \<open>rl_tools.buffer\<close>) is a
  parameter, and so is the function to lift, which is taken to return. The function is
  jitted, so the loops over \<open>experience.observation\<close> walk the agents in sorted order.
\<close>

definition process_experience_general_factory ::
  "('raw \<Rightarrow> ('k :: linorder, 'x) pytree experience) \<Rightarrow> ('key \<Rightarrow> nat \<Rightarrow> nat \<Rightarrow> 'key) \<Rightarrow>
   ('s \<Rightarrow> 'key \<Rightarrow> ('k, 'x) pytree experience \<Rightarrow> 'y list list) \<Rightarrow> bool \<Rightarrow> bool \<Rightarrow>
   's \<Rightarrow> 'key \<Rightarrow> 'raw \<Rightarrow> error + 'y list list" where
  "process_experience_general_factory stack_experiences prng process_experience_fn vectorized parallel
       state key raw =
     (let experience = stack_experiences raw
      in if parallel \<and> vectorized then
           (case sequence (map the_dict2 (unpack experience)) of
              Inl e \<Rightarrow> Inl e
            | Inr dicts \<Rightarrow>
                (let keys = agent_env_keys prng key (sorted_items (hd dicts))
                 in case tree_map_dict
                           (vmap_axis1 (inner_process_experience_fn process_experience_fn state))
                           keys dicts of
                      Inl e \<Rightarrow> Inl e
                    | Inr outputs \<Rightarrow> tree_map_outputs concat_and_reshape (map snd outputs)))
         else if parallel then
           (case sequence (map the_dict1 (unpack experience)) of
              Inl e \<Rightarrow> Inl e
            | Inr dicts \<Rightarrow>
                (let keys = agent_keys prng key (sorted_items (hd dicts))
                 in case tree_map_dict
                           (\<lambda>k flds. Inr (inner_process_experience_fn process_experience_fn state k flds))
                           keys dicts of
                      Inl e \<Rightarrow> Inl e
                    | Inr outputs \<Rightarrow> tree_map_outputs stack_and_reshape (map snd outputs)))
         else if vectorized then
           (case sequence (map the_array2 (unpack experience)) of
              Inl e \<Rightarrow> Inl e
            | Inr arrays \<Rightarrow>
                (let keys = random_split prng key (dim1 (hd arrays))
                 in case vmap_axis1 (inner_process_experience_fn process_experience_fn state)
                           keys arrays of
                      Inl e \<Rightarrow> Inl e
                    | Inr outputs \<Rightarrow> Inr (map reshape_merge outputs)))
         else Inr (process_experience_fn state key experience))"

text \<open>
  A stacked experience of parallel agents in vectorized environments, as the list of its
  fields: every field is a dictionary over the same agents (at least one), and every
  array has \<open>T\<close> rows of \<open>E\<close> entries.
\<close>

definition vectorized_parallel_batch :: "('k, 'x arr) dict list \<Rightarrow> nat \<Rightarrow> nat \<Rightarrow> bool" where
  "vectorized_parallel_batch dicts T E =
     (dicts \<noteq> [] \<and> hd dicts \<noteq> [] \<and>
      (\<forall>d\<in>set dicts. distinct (map fst d) \<and> set (map fst d) = set (map fst (hd dicts)) \<and>
         (\<forall>a\<in>set (map snd d). wf_arr a \<and> dim1 a = E \<and> length (rows a) = T)))"

text \<open>
  A small batch and a function to lift, for the examples below: two agents, two steps,
  two environments, two fields. The function pairs every entry with the key it was
  called with.
\<close>

definition example_batch :: "(nat, nat) pytree experience" where
  "example_batch =
     \<lparr>observation = Dict2 [(1, Arr 2 [[10, 11], [12, 13]]), (0, Arr 2 [[20, 21], [22, 23]])],
      others = [Dict2 [(0, Arr 2 [[30, 31], [32, 33]]), (1, Arr 2 [[40, 41], [42, 43]])]]\<rparr>"

definition example_process ::
  "unit \<Rightarrow> nat list \<Rightarrow> (nat, nat) pytree experience \<Rightarrow> (nat list \<times> nat) list list" where
  "example_process state key ex =
     (case (observation ex, others ex) of
        (Array1 obs, [Array1 act]) \<Rightarrow> [map (\<lambda>x. (key, x)) obs, map (\<lambda>x. (key, x)) act]
      | _ \<Rightarrow> [])"

text \<open>A key generator for the examples: a key is the path of split indices that led to it.\<close>

definition example_prng :: "nat list \<Rightarrow> nat \<Rightarrow> nat \<Rightarrow> nat list" where
  "example_prng key num i = i # key"

text \<open>
  Two functions to lift into the action-sampling lift, for the examples below: one adds
  the key to every entry of its inputs, the other returns the size of the first axis of
  each input, as a function written for batches can.
\<close>

definition example_add_key :: "unit \<Rightarrow> nat \<Rightarrow> nat ndarray list \<Rightarrow> nat ndarray list" where
  "example_add_key state key trees = map (\<lambda>x. NDArray (shape x) (map (\<lambda>v. v + key) (data x))) trees"

definition example_batch_size :: "unit \<Rightarrow> nat \<Rightarrow> nat ndarray list \<Rightarrow> nat ndarray list" where
  "example_batch_size state key trees =
     map (\<lambda>x. NDArray [1] [case shape x of [] \<Rightarrow> 0 | d # ds \<Rightarrow> d]) trees"

text \<open>
  The key that the loop over the agents of a vectorized batch carries on after agents
  with the given numbers of environments: each agent replaces it by the first of the
  keys split for that agent.
\<close>

fun carried_env_key :: "('key \<Rightarrow> nat \<Rightarrow> nat \<Rightarrow> 'key) \<Rightarrow> 'key \<Rightarrow> nat list \<Rightarrow> 'key" where
  "carried_env_key prng key [] = key"
| "carried_env_key prng key (n # ns) = carried_env_key prng (prng key (n + 1) 0) ns"

section \<open>Properties of the loss functions\<close>

lemma fmin_min: "fmin a b = min a b"
  by (simp add: fmin_def min_def)

lemma fmax_max: "fmax a b = max a b"
  by (simp add: fmax_def max_def)

lemma clip_cases:
  "lo \<le> hi \<Longrightarrow> clip x lo hi = (if x < lo then lo else if hi < x then hi else x)"
  by (simp add: clip_def min_def max_def)

lemma assert_equal_shape3:
  "assert_equal_shape [a, b, c] = (if shape b = shape a \<and> shape c = shape a then Inr () else Inl AssertionError)"
  by (simp add: assert_equal_shape_def)

lemma wf_same_length:
  "wf_array a \<Longrightarrow> wf_array b \<Longrightarrow> shape a = shape b \<Longrightarrow> length (data a) = length (data b)"
  by (simp add: wf_array_def)

lemma sum_list_map2_nth:
  fixes f :: "real \<Rightarrow> real \<Rightarrow> real"
  assumes "length xs = n" "length ys = n"
  shows "sum_list (map2 f xs ys) = (\<Sum>i<n. f (xs ! i) (ys ! i))"
proof -
  have "sum_list (map2 f xs ys) = (\<Sum>i = 0..<length (map2 f xs ys). map2 f xs ys ! i)"
    by (rule sum_list_sum_nth)
  also have "\<dots> = (\<Sum>i = 0..<n. f (xs ! i) (ys ! i))"
    using assms by (intro sum.cong) auto
  finally show ?thesis by (simp add: atLeast0LessThan)
qed

lemma sum_list_map_nth:
  fixes f :: "real \<Rightarrow> real"
  shows "sum_list (map f xs) = (\<Sum>i<length xs. f (xs ! i))"
proof -
  have "sum_list (map f xs) = (\<Sum>i = 0..<length (map f xs). map f xs ! i)"
    by (rule sum_list_sum_nth)
  also have "\<dots> = (\<Sum>i = 0..<length xs. f (xs ! i))"
    by (intro sum.cong) auto
  finally show ?thesis by (simp add: atLeast0LessThan)
qed

lemma clip_spec_clamp: "lo \<le> hi \<Longrightarrow> clip x lo hi = spec_clamp x lo hi"
  by (simp add: clip_cases spec_clamp_def)

lemma jnp_mean_spec_mean: "jnp_mean a = spec_mean (data a)"
  by (simp add: jnp_mean_def spec_mean_def sum_list_sum_nth atLeast0LessThan)

lemma policy_loss_value:
  assumes "length lp = length adv" "length lpo = length adv" "0 \<le> eps"
  shows "- (sum_list (map2 fmin (map2 (*) (map exp (map2 (-) lp lpo)) adv)
                (map2 (*) (map (\<lambda>r. clip r (1 - eps) (1 + eps)) (map exp (map2 (-) lp lpo))) adv))
            / real (length adv))
         = spec_policy_loss lp lpo adv eps"
proof -
  let ?n = "length adv"
  let ?a = "map2 (*) (map exp (map2 (-) lp lpo)) adv"
  let ?b = "map2 (*) (map (\<lambda>r. clip r (1 - eps) (1 + eps)) (map exp (map2 (-) lp lpo))) adv"
  have la: "length ?a = ?n" and lb: "length ?b = ?n" using assms by simp_all
  have c: "\<And>r. clip r (1 - eps) (1 + eps) = spec_clamp r (1 - eps) (1 + eps)"
    using assms(3) by (intro clip_spec_clamp) simp
  have "sum_list (map2 fmin ?a ?b) = (\<Sum>i<?n. fmin (?a ! i) (?b ! i))"
    by (rule sum_list_map2_nth[OF la lb])
  also have "\<dots> = (\<Sum>i<?n. min (spec_ratio lp lpo i * adv ! i)
                             (spec_clamp (spec_ratio lp lpo i) (1 - eps) (1 + eps) * adv ! i))"
    using assms(1,2) by (intro sum.cong) (auto simp: fmin_min spec_ratio_def c)
  finally show ?thesis by (simp add: spec_policy_loss_def)
qed

lemma kl_value:
  assumes "length lpo = length lp"
  shows "sum_list (map2 (-) (map (\<lambda>r. r - 1) (map exp (map2 (-) lp lpo))) (map2 (-) lp lpo))
            / real (length lp)
         = spec_kl_estimate lp lpo"
proof -
  let ?n = "length lp"
  let ?a = "map (\<lambda>r. r - 1) (map exp (map2 (-) lp lpo))"
  let ?b = "map2 (-) lp lpo"
  have la: "length ?a = ?n" and lb: "length ?b = ?n" using assms by simp_all
  have "sum_list (map2 (-) ?a ?b) = (\<Sum>i<?n. (?a ! i) - (?b ! i))"
    by (rule sum_list_map2_nth[OF la lb])
  also have "\<dots> = (\<Sum>i<?n. (spec_ratio lp lpo i - 1) - (lp ! i - lpo ! i))"
    using assms by (intro sum.cong) (auto simp: spec_ratio_def)
  finally show ?thesis by (simp add: spec_kl_estimate_def)
qed

lemma kl_mean_jvp_value:
  assumes "length tn = length lp" "length tno = length lpo" "length lpo = length lp"
  shows "kl_mean_jvp (zip lp tn) (zip lpo tno) = (spec_kl_estimate lp lpo, spec_kl_tangent lp lpo tn tno)"
proof -
  let ?lr = "map2 dual_sub (zip lp tn) (zip lpo tno)"
  let ?xs = "map2 dual_sub (map (\<lambda>r. dual_sub r (1, 0)) (map dual_exp ?lr)) ?lr"
  have len: "length ?xs = length lp" using assms by simp
  have "map fst ?xs = map2 (-) (map (\<lambda>r. r - 1) (map exp (map2 (-) lp lpo))) (map2 (-) lp lpo)"
    using assms by (intro nth_equalityI) (auto simp: dual_sub_def dual_exp_def)
  then have v: "fst (dual_mean ?xs) = spec_kl_estimate lp lpo"
    using kl_value[OF assms(3)] len by (simp add: dual_mean_def)
  have "sum_list (map snd ?xs) = (\<Sum>i = 0..<length (map snd ?xs). map snd ?xs ! i)"
    by (rule sum_list_sum_nth)
  also have "\<dots> = (\<Sum>i = 0..<length lp. (spec_ratio lp lpo i - 1) * (tn ! i - tno ! i))"
    using assms
    by (intro sum.cong) (auto simp: dual_sub_def dual_exp_def spec_ratio_def algebra_simps)
  finally have sl: "sum_list (map snd ?xs) = (\<Sum>i<length lp. (spec_ratio lp lpo i - 1) * (tn ! i - tno ! i))"
    by (simp only: atLeast0LessThan)
  have "snd (dual_mean ?xs) = sum_list (map snd ?xs) / real (length ?xs)"
    by (simp add: dual_mean_def)
  then have "snd (dual_mean ?xs) = spec_kl_tangent lp lpo tn tno"
    by (simp only: sl len spec_kl_tangent_def)
  with v have "dual_mean ?xs = (spec_kl_estimate lp lpo, spec_kl_tangent lp lpo tn tno)"
    by (simp add: prod_eq_iff)
  then show ?thesis
    unfolding kl_mean_jvp_def Let_def by (simp only:)
qed

lemma loss_policy_result:
  assumes "wf_array log_probs" "wf_array log_probs_old" "wf_array gaes"
    and "shape log_probs = shape log_probs_old" "shape log_probs_old = shape gaes"
    and "0 \<le> clip_eps"
  shows "loss_policy_ppo_discrete categorical_entropy logits log_probs log_probs_old gaes clip_eps entropy_coef =
           Inr (spec_policy_loss (data log_probs) (data log_probs_old) (data gaes) clip_eps
                  + entropy_coef * (- jnp_mean (categorical_entropy logits)),
                \<lparr>loss_policy = spec_policy_loss (data log_probs) (data log_probs_old) (data gaes) clip_eps,
                 entropy = categorical_entropy logits,
                 kl_divergence = spec_kl_estimate (data log_probs) (data log_probs_old)\<rparr>)"
proof -
  have l1: "length (data log_probs) = length (data gaes)"
    using assms by (simp add: wf_array_def)
  have l2: "length (data log_probs_old) = length (data gaes)"
    using assms by (simp add: wf_array_def)
  have l3: "length (data log_probs_old) = length (data log_probs)"
    using l1 l2 by simp
  have p: "- jnp_mean (elementwise2 fmin
              (elementwise2 (*) (elementwise exp (elementwise2 (-) log_probs log_probs_old)) gaes)
              (elementwise2 (*) (elementwise (\<lambda>r. clip r (1 - clip_eps) (1 + clip_eps))
                 (elementwise exp (elementwise2 (-) log_probs log_probs_old))) gaes))
           = spec_policy_loss (data log_probs) (data log_probs_old) (data gaes) clip_eps"
    using policy_loss_value[OF l1 l2 assms(6)] l1 l2
    by (simp add: jnp_mean_def elementwise_def elementwise2_def)
  have k: "jnp_mean (elementwise2 (-)
              (elementwise (\<lambda>r. r - 1) (elementwise exp (elementwise2 (-) log_probs log_probs_old)))
              (elementwise2 (-) log_probs log_probs_old))
           = spec_kl_estimate (data log_probs) (data log_probs_old)"
    using kl_value[OF l3] l3
    by (simp add: jnp_mean_def elementwise_def elementwise2_def)
  show ?thesis
    using assms(4,5) p k
    by (simp add: loss_policy_ppo_discrete_def assert_equal_shape3 Let_def stop_gradient_def)
qed

text \<open>
  C3. For well-formed arrays \<open>log_probs\<close>, \<open>log_probs_old\<close> and \<open>gaes\<close> of equal shape, every
  \<open>logits\<close>, every clip radius (a number that is not negative) and every entropy
  coefficient, \<open>loss_policy_ppo_discrete\<close> returns \<open>policy_loss + entropy_coef * entropy_loss\<close>,
  where \<open>policy_loss\<close> is minus the mean of
  \<open>min (ratio * advantage) (clamp ratio (1 - eps) (1 + eps) * advantage)\<close> with
  \<open>ratio = exp (log_probs - log_probs_old)\<close>, and \<open>entropy_loss\<close> is minus the mean of the
  categorical entropy of the logits. The diagnostics hold \<open>policy_loss\<close>, the per-step entropy
  and the mean of \<open>(ratio - 1) - (log_probs - log_probs_old)\<close>. In forward mode that mean has
  the derivative calculus gives, the mean of \<open>(ratio - 1)\<close> times the tangent of the log
  ratio; the value stored in the diagnostics has tangent zero whatever the tangents of the
  two log-probability arrays are: it carries no gradient.
\<close>

theorem loss_policy_ppo_discrete_formula:
  assumes "wf_array log_probs" "wf_array log_probs_old" "wf_array gaes"
    and "shape log_probs = shape log_probs_old" "shape log_probs_old = shape gaes"
    and "0 \<le> clip_eps"
  shows "loss_policy_ppo_discrete categorical_entropy logits log_probs log_probs_old gaes clip_eps entropy_coef =
           Inr (spec_policy_loss (data log_probs) (data log_probs_old) (data gaes) clip_eps
                  + entropy_coef * (- spec_mean (data (categorical_entropy logits))),
                \<lparr>loss_policy = spec_policy_loss (data log_probs) (data log_probs_old) (data gaes) clip_eps,
                 entropy = categorical_entropy logits,
                 kl_divergence = spec_kl_estimate (data log_probs) (data log_probs_old)\<rparr>)
         \<and> (\<forall>tn tno. length tn = length (data log_probs) \<and> length tno = length (data log_probs_old) \<longrightarrow>
               kl_mean_jvp (zip (data log_probs) tn) (zip (data log_probs_old) tno) =
                 (spec_kl_estimate (data log_probs) (data log_probs_old),
                  spec_kl_tangent (data log_probs) (data log_probs_old) tn tno)
               \<and> kl_divergence_jvp (zip (data log_probs) tn) (zip (data log_probs_old) tno) =
                 (spec_kl_estimate (data log_probs) (data log_probs_old), 0))"
proof -
  have l: "length (data log_probs_old) = length (data log_probs)"
    using assms by (simp add: wf_array_def)
  have "\<forall>tn tno. length tn = length (data log_probs) \<and> length tno = length (data log_probs_old) \<longrightarrow>
               kl_mean_jvp (zip (data log_probs) tn) (zip (data log_probs_old) tno) =
                 (spec_kl_estimate (data log_probs) (data log_probs_old),
                  spec_kl_tangent (data log_probs) (data log_probs_old) tn tno)
               \<and> kl_divergence_jvp (zip (data log_probs) tn) (zip (data log_probs_old) tno) =
                 (spec_kl_estimate (data log_probs) (data log_probs_old), 0)"
  proof (intro allI impI)
    fix tn tno :: "real list"
    assume "length tn = length (data log_probs) \<and> length tno = length (data log_probs_old)"
    then have m: "kl_mean_jvp (zip (data log_probs) tn) (zip (data log_probs_old) tno) =
                 (spec_kl_estimate (data log_probs) (data log_probs_old),
                  spec_kl_tangent (data log_probs) (data log_probs_old) tn tno)"
      using kl_mean_jvp_value l by blast
    then show "kl_mean_jvp (zip (data log_probs) tn) (zip (data log_probs_old) tno) =
                 (spec_kl_estimate (data log_probs) (data log_probs_old),
                  spec_kl_tangent (data log_probs) (data log_probs_old) tn tno)
               \<and> kl_divergence_jvp (zip (data log_probs) tn) (zip (data log_probs_old) tno) =
                 (spec_kl_estimate (data log_probs) (data log_probs_old), 0)"
      by (simp add: kl_divergence_jvp_def dual_stop_gradient_def)
  qed
  with loss_policy_result[OF assms, of categorical_entropy logits entropy_coef]
  show ?thesis by (simp only: jnp_mean_spec_mean)
qed

theorem loss_policy_ppo_discrete_formula_witness:
  "loss_policy_ppo_discrete (\<lambda>l. l) (NDArray [2] [2, 4]) (NDArray [3, 1] [ln 2, 0, ln 2])
       (NDArray [3, 1] [0, 0, 0]) (NDArray [3, 1] [1, 3, - 1]) (1 / 5) (1 / 2)
     = Inr (- 67 / 30,
            \<lparr>loss_policy = - 11 / 15, entropy = NDArray [2] [2, 4], kl_divergence = (2 - 2 * ln 2) / 3\<rparr>)
   \<and> kl_mean_jvp [(ln 2, 5), (0, 7), (ln 2, 1)] [(0, 1), (0, 2), (0, 0)] = ((2 - 2 * ln 2) / 3, 5 / 3)
   \<and> kl_divergence_jvp [(ln 2, 5), (0, 7), (ln 2, 1)] [(0, 1), (0, 2), (0, 0)] = ((2 - 2 * ln 2) / 3, 0)"
proof -
  have w: "wf_array (NDArray [3, 1] [ln 2, 0, ln 2 :: real])" "wf_array (NDArray [3, 1] [0, 0, 0 :: real])"
          "wf_array (NDArray [3, 1] [1, 3, - 1 :: real])"
    by (simp_all add: wf_array_def)
  have s: "shape (NDArray [3, 1] [ln 2, 0, ln 2 :: real]) = shape (NDArray [3, 1] [0, 0, 0 :: real])"
          "shape (NDArray [3, 1] [0, 0, 0 :: real]) = shape (NDArray [3, 1] [1, 3, - 1 :: real])"
    by simp_all
  have e: "(0 :: real) \<le> 1 / 5" by simp
  have p: "spec_policy_loss [ln 2, 0, ln 2] [0, 0, 0] [1, 3, - 1] (1 / 5) = - 11 / 15"
    by (simp add: spec_policy_loss_def spec_ratio_def spec_clamp_def lessThan_Suc eval_nat_numeral)
  have k: "spec_kl_estimate [ln 2, 0, ln 2] [0, 0, 0] = (2 - 2 * ln 2) / 3"
    by (simp add: spec_kl_estimate_def spec_ratio_def lessThan_Suc eval_nat_numeral)
  have g: "spec_kl_tangent [ln 2, 0, ln 2] [0, 0, 0] [5, 7, 1] [1, 2, 0] = 5 / 3"
    by (simp add: spec_kl_tangent_def spec_ratio_def lessThan_Suc eval_nat_numeral)
  have m: "spec_mean [2, 4] = 3"
    by (simp add: spec_mean_def lessThan_Suc eval_nat_numeral)
  note t = loss_policy_ppo_discrete_formula[OF w s e, of "\<lambda>l. l" "NDArray [2] [2, 4]" "1 / 2"]
  have a: "loss_policy_ppo_discrete (\<lambda>l. l) (NDArray [2] [2, 4]) (NDArray [3, 1] [ln 2, 0, ln 2])
       (NDArray [3, 1] [0, 0, 0]) (NDArray [3, 1] [1, 3, - 1]) (1 / 5) (1 / 2)
     = Inr (- 67 / 30,
            \<lparr>loss_policy = - 11 / 15, entropy = NDArray [2] [2, 4], kl_divergence = (2 - 2 * ln 2) / 3\<rparr>)"
    using t[THEN conjunct1] by (simp add: p k m)
  have b: "kl_mean_jvp [(ln 2, 5), (0, 7), (ln 2, 1)] [(0, 1), (0, 2), (0, 0)] = ((2 - 2 * ln 2) / 3, 5 / 3)
     \<and> kl_divergence_jvp [(ln 2, 5), (0, 7), (ln 2, 1)] [(0, 1), (0, 2), (0, 0)] = ((2 - 2 * ln 2) / 3, 0)"
    using t[THEN conjunct2, rule_format, of "[5, 7, 1]" "[1, 2, 0]"] by (simp add: k g)
  from a b show ?thesis by blast
qed

lemma value_loss_value:
  assumes "length tg = length v" "length vo = length v" "0 \<le> eps"
  shows "sum_list (map2 fmax (map (\<lambda>x. x\<^sup>2) (map2 (-) v tg))
            (map (\<lambda>x. x\<^sup>2) (map2 (-) (map2 (+) (map (\<lambda>d. clip d (- eps) eps) (map2 (-) v vo)) vo) tg)))
            / real (length v)
         = spec_value_loss v tg vo eps"
proof -
  let ?n = "length v"
  let ?a = "map (\<lambda>x. x\<^sup>2) (map2 (-) v tg)"
  let ?b = "map (\<lambda>x. x\<^sup>2) (map2 (-) (map2 (+) (map (\<lambda>d. clip d (- eps) eps) (map2 (-) v vo)) vo) tg)"
  have la: "length ?a = ?n" and lb: "length ?b = ?n" using assms by simp_all
  have c: "\<And>d. clip d (- eps) eps = spec_clamp d (- eps) eps"
    using assms(3) by (intro clip_spec_clamp) simp
  have "sum_list (map2 fmax ?a ?b) = (\<Sum>i<?n. fmax (?a ! i) (?b ! i))"
    by (rule sum_list_map2_nth[OF la lb])
  also have "\<dots> = (\<Sum>i<?n. max ((v ! i - tg ! i)\<^sup>2)
                        ((vo ! i + spec_clamp (v ! i - vo ! i) (- eps) eps - tg ! i)\<^sup>2))"
    using assms(1,2) by (intro sum.cong) (auto simp: fmax_max add.commute c)
  finally show ?thesis by (simp add: spec_value_loss_def)
qed

text \<open>
  C4. For well-formed arrays \<open>values\<close>, \<open>targets\<close> and \<open>values_old\<close> of equal shape and every
  clip radius (a number that is not negative), \<open>loss_value_clip\<close> returns the mean over the
  elements of the maximum of \<open>(values - targets)\<^sup>2\<close> and
  \<open>(values_old + clamp (values - values_old) (- eps) eps - targets)\<^sup>2\<close>.
\<close>

theorem loss_value_clip_formula:
  assumes "wf_array values" "wf_array targets" "wf_array values_old"
    and "shape values = shape targets" "shape targets = shape values_old"
    and "0 \<le> clip_eps"
  shows "loss_value_clip values targets values_old clip_eps =
           Inr (spec_value_loss (data values) (data targets) (data values_old) clip_eps,
                \<lparr>loss_value = spec_value_loss (data values) (data targets) (data values_old) clip_eps\<rparr>)"
proof -
  have l1: "length (data targets) = length (data values)"
    using assms by (simp add: wf_array_def)
  have l2: "length (data values_old) = length (data values)"
    using assms by (simp add: wf_array_def)
  show ?thesis
    using assms(4,5) value_loss_value[OF l1 l2 assms(6)] l1 l2
    by (simp add: loss_value_clip_def assert_equal_shape3 Let_def jnp_mean_def
        elementwise_def elementwise2_def)
qed

theorem loss_value_clip_formula_witness:
  "loss_value_clip (NDArray [2, 1] [3, 1]) (NDArray [2, 1] [3, 2]) (NDArray [2, 1] [1, 1]) (1 / 2)
     = Inr (13 / 8, \<lparr>loss_value = 13 / 8\<rparr>)"
proof -
  have w: "wf_array (NDArray [2, 1] [3, 1 :: real])" "wf_array (NDArray [2, 1] [3, 2 :: real])"
          "wf_array (NDArray [2, 1] [1, 1 :: real])"
    by (simp_all add: wf_array_def)
  have s: "shape (NDArray [2, 1] [3, 1 :: real]) = shape (NDArray [2, 1] [3, 2 :: real])"
          "shape (NDArray [2, 1] [3, 2 :: real]) = shape (NDArray [2, 1] [1, 1 :: real])"
    by simp_all
  have e: "(0 :: real) \<le> 1 / 2" by simp
  have p: "spec_value_loss [3, 1] [3, 2] [1, 1] (1 / 2) = 13 / 8"
    by (simp add: spec_value_loss_def spec_clamp_def lessThan_Suc eval_nat_numeral power2_eq_square)
  from loss_value_clip_formula[OF w s e] show ?thesis
    by (simp add: p)
qed

lemma spec_policy_loss_same:
  assumes "0 \<le> eps" "length lp = length adv"
  shows "spec_policy_loss lp lp adv eps = - (sum_list adv / real (length adv))"
proof -
  have c: "spec_clamp 1 (1 - eps) (1 + eps) = 1"
    using assms(1) by (simp add: spec_clamp_def)
  have "(\<Sum>i<length adv. min (spec_ratio lp lp i * adv ! i)
                             (spec_clamp (spec_ratio lp lp i) (1 - eps) (1 + eps) * adv ! i))
        = (\<Sum>i<length adv. adv ! i)"
    by (intro sum.cong) (simp_all add: spec_ratio_def c)
  also have "\<dots> = sum_list adv"
    by (simp add: sum_list_sum_nth atLeast0LessThan)
  finally show ?thesis by (simp add: spec_policy_loss_def)
qed

text \<open>
  C7. When \<open>log_probs_old\<close> is \<open>log_probs\<close> itself (every ratio is 1) and the clip radius is
  not negative, the \<open>loss_policy\<close> entry of the diagnostics is exactly minus the mean of the
  advantages, for every \<open>logits\<close> and entropy coefficient.
\<close>

theorem policy_loss_at_ratio_one:
  assumes "wf_array log_probs" "wf_array gaes" "shape log_probs = shape gaes" "0 \<le> clip_eps"
  shows "\<exists>total infos.
           loss_policy_ppo_discrete categorical_entropy logits log_probs log_probs gaes clip_eps entropy_coef
             = Inr (total, infos)
           \<and> loss_policy infos = - jnp_mean gaes"
proof -
  have l: "length (data log_probs) = length (data gaes)"
    using assms by (simp add: wf_array_def)
  show ?thesis
    using loss_policy_result[OF assms(1) assms(1) assms(2) refl assms(3) assms(4)]
      spec_policy_loss_same[OF assms(4) l]
    by (simp add: jnp_mean_def)
qed

theorem policy_loss_at_ratio_one_witness:
  "\<exists>total infos.
     loss_policy_ppo_discrete (\<lambda>l. l) (NDArray [2] [2, 4]) (NDArray [2, 1] [- 1, - 3])
       (NDArray [2, 1] [- 1, - 3]) (NDArray [2, 1] [1, - 5]) (1 / 5) (1 / 2) = Inr (total, infos)
     \<and> loss_policy infos = 2"
proof -
  have w: "wf_array (NDArray [2, 1] [- 1, - 3 :: real])" "wf_array (NDArray [2, 1] [1, - 5 :: real])"
    by (simp_all add: wf_array_def)
  have s: "shape (NDArray [2, 1] [- 1, - 3 :: real]) = shape (NDArray [2, 1] [1, - 5 :: real])"
    by simp
  have e: "(0::real) \<le> 1 / 5" by simp
  have m: "- jnp_mean (NDArray [2, 1] [1, - 5]) = 2"
    by (simp add: jnp_mean_def)
  from policy_loss_at_ratio_one[OF w s e, of "\<lambda>l. l" "NDArray [2] [2, 4]" "1 / 2"] show ?thesis
    by (simp only: m)
qed

text \<open>
  C8. When two of \<open>log_probs\<close>, \<open>log_probs_old\<close>, \<open>gaes\<close> differ in shape,
  \<open>loss_policy_ppo_discrete\<close> fails with the assertion's error and returns no loss; likewise
  \<open>loss_value_clip\<close> when two of \<open>values\<close>, \<open>targets\<close>, \<open>values_old\<close> differ in shape.
  Nothing is broadcast or truncated.
\<close>

theorem shape_mismatch_fails:
  "(\<not> (shape log_probs = shape log_probs_old \<and> shape log_probs_old = shape gaes) \<longrightarrow>
      loss_policy_ppo_discrete categorical_entropy logits log_probs log_probs_old gaes clip_eps entropy_coef
        = Inl AssertionError)
   \<and> (\<not> (shape values = shape targets \<and> shape targets = shape values_old) \<longrightarrow>
      loss_value_clip values targets values_old clip_eps = Inl AssertionError)"
  by (auto simp: loss_policy_ppo_discrete_def loss_value_clip_def assert_equal_shape3)

theorem shape_mismatch_fails_witness:
  "loss_policy_ppo_discrete (\<lambda>l. l) (NDArray [2] [2, 4]) (NDArray [2, 1] [0, 0]) (NDArray [2] [0, 0])
       (NDArray [2, 1] [1, 3]) (1 / 5) (1 / 2) = Inl AssertionError
   \<and> loss_value_clip (NDArray [2, 1] [3, 1]) (NDArray [2, 1] [0, 2]) (NDArray [1, 2] [1, 1]) (1 / 5)
       = Inl AssertionError"
  using shape_mismatch_fails[of "NDArray [2, 1] [0, 0]" "NDArray [2] [0, 0]" "NDArray [2, 1] [1, 3]"
      "\<lambda>l. l" "NDArray [2] [2, 4]" "1 / 5" "1 / 2"
      "NDArray [2, 1] [3, 1]" "NDArray [2, 1] [0, 2]" "NDArray [1, 2] [1, 1]"]
  by simp
section \<open>Properties of the values and discounts\<close>

text \<open>
  C9. The discounts handed to \<open>calculate_gaes_targets\<close> have one row \<open>[gamma * (1 - dones[t])]\<close>
  for every step \<open>t\<close> of the batch, and the rewards handed to it are the rewards of the
  batch, each as a row of length one.
\<close>

theorem gae_discounts_rewards:
  assumes "gae_arguments encoder_fn value_fn cfg ps observations next_observations dones rewards
             = (values, next_values, discounts, rewards1)"
  shows "compute_values_gaes encoder_fn value_fn calculate_gaes_targets cfg ps
             observations next_observations dones rewards
           = (fst (calculate_gaes_targets values next_values discounts rewards1 (lambda cfg) (normalize cfg)),
              snd (calculate_gaes_targets values next_values discounts rewards1 (lambda cfg) (normalize cfg)),
              values)
         \<and> length discounts = length dones
         \<and> (\<forall>t<length dones. discounts ! t = [gamma cfg * (1 - dones ! t)])
         \<and> length rewards1 = length rewards
         \<and> (\<forall>t<length rewards. rewards1 ! t = [rewards ! t])"
proof -
  have d: "discounts = map (\<lambda>d. [gamma cfg * (1 - d)]) dones"
    and r: "rewards1 = map (\<lambda>r. [r]) rewards"
    using assms by (auto simp: gae_arguments_def Let_def)
  have c: "compute_values_gaes encoder_fn value_fn calculate_gaes_targets cfg ps
             observations next_observations dones rewards
           = (fst (calculate_gaes_targets values next_values discounts rewards1 (lambda cfg) (normalize cfg)),
              snd (calculate_gaes_targets values next_values discounts rewards1 (lambda cfg) (normalize cfg)),
              values)"
    by (simp add: compute_values_gaes_def assms split: prod.splits)
  show ?thesis using c by (simp add: d r)
qed

theorem gae_discounts_rewards_witness:
  "gae_arguments (\<lambda>p xs. map (\<lambda>x. p + x) xs) (\<lambda>p hs. map (\<lambda>h. [p * h]) hs)
       \<lparr>gamma = 1 / 2, lambda = 1, normalize = False, num_epochs = 1\<rparr>
       \<lparr>params_encoder = 1, params_value = 2\<rparr> [1, 2, 3 :: real] [2, 3, 7] [0, 0, 1] [5, 6, 8]
     = ([[4], [6], [8 :: real]], [[6], [8], [16]], [[1 / 2], [1 / 2], [0]], [[5], [6], [8]])
   \<and> compute_values_gaes (\<lambda>p xs. map (\<lambda>x. p + x) xs) (\<lambda>p hs. map (\<lambda>h. [p * h]) hs)
         (\<lambda>v nv d r l n. (d, r)) \<lparr>gamma = 1 / 2, lambda = 1, normalize = False, num_epochs = 1\<rparr>
         \<lparr>params_encoder = 1, params_value = 2\<rparr> [1, 2, 3 :: real] [2, 3, 7] [0, 0, 1] [5, 6, 8]
       = ([[1 / 2], [1 / 2], [0]], [[5], [6], [8]], [[4], [6], [8 :: real]])
   \<and> [[1 / 2], [1 / 2], [0 :: real]] ! 2 = [1 / 2 * (1 - [0, 0, 1] ! 2)]"
proof -
  have h: "gae_arguments (\<lambda>p xs. map (\<lambda>x. p + x) xs) (\<lambda>p hs. map (\<lambda>h. [p * h]) hs)
       \<lparr>gamma = 1 / 2, lambda = 1, normalize = False, num_epochs = 1\<rparr>
       \<lparr>params_encoder = 1, params_value = 2\<rparr> [1, 2, 3 :: real] [2, 3, 7] [0, 0, 1] [5, 6, 8]
     = ([[4], [6], [8 :: real]], [[6], [8], [16]], [[1 / 2], [1 / 2], [0]], [[5], [6], [8]])"
    by (simp add: gae_arguments_def last_slice_def)
  note t = gae_discounts_rewards[OF h, of "\<lambda>v nv d r l n. (d, r)"]
  have a: "compute_values_gaes (\<lambda>p xs. map (\<lambda>x. p + x) xs) (\<lambda>p hs. map (\<lambda>h. [p * h]) hs)
         (\<lambda>v nv d r l n. (d, r)) \<lparr>gamma = 1 / 2, lambda = 1, normalize = False, num_epochs = 1\<rparr>
         \<lparr>params_encoder = 1, params_value = 2\<rparr> [1, 2, 3 :: real] [2, 3, 7] [0, 0, 1] [5, 6, 8]
       = ([[1 / 2], [1 / 2], [0]], [[5], [6], [8]], [[4], [6], [8 :: real]])"
    using t by simp
  have b: "[[1 / 2], [1 / 2], [0 :: real]] ! 2 = [1 / 2 * (1 - [0, 0, 1] ! 2)]"
    using t[THEN conjunct2, THEN conjunct2, THEN conjunct1, rule_format, of 2] by simp
  from h a b show ?thesis by blast
qed

lemma gae_values_rowwise:
  assumes "gae_arguments encoder_fn value_fn cfg ps observations next_observations dones rewards
             = (values, next_values, discounts, rewards1)"
    and enc: "\<And>xs. encoder_fn (params_encoder ps) xs = map enc xs"
    and val: "\<And>hs. value_fn (params_value ps) hs = map vf hs"
    and ne: "next_observations \<noteq> []" "observations \<noteq> []"
  shows "next_values = map (\<lambda>x. vf (enc x)) (tl observations @ [last next_observations])"
proof -
  have "next_values = tl (map (\<lambda>x. vf (enc x)) (observations @ [last next_observations]))"
    using assms(1) ne by (auto simp: gae_arguments_def Let_def last_slice_def enc val comp_def)
  then show ?thesis using ne(2) by (simp add: map_tl)
qed

lemma gae_arguments_last_only:
  assumes "last_slice other = last_slice next_observations"
  shows "gae_arguments encoder_fn value_fn cfg ps observations other dones rewards
           = gae_arguments encoder_fn value_fn cfg ps observations next_observations dones rewards"
  using assms by (simp add: gae_arguments_def)

text \<open>
  C10. With networks that act on each row of their batch on its own, \<open>next_values[t]\<close> is
  the value of \<open>observations[t + 1]\<close> for every \<open>t < T - 1\<close>, and \<open>next_values[T - 1]\<close> is the
  value of the last next-observation. No other next-observation is read: a batch that
  differs only in \<open>next_observations[t]\<close> for \<open>t < T - 1\<close> gives the same arguments and the same
  result.
\<close>

theorem next_values_from_observations:
  assumes "gae_arguments encoder_fn value_fn cfg ps observations next_observations dones rewards
             = (values, next_values, discounts, rewards1)"
    and "\<And>xs. encoder_fn (params_encoder ps) xs = map enc xs"
    and "\<And>hs. value_fn (params_value ps) hs = map vf hs"
    and "length next_observations = length observations" and "observations \<noteq> []"
  shows "length next_values = length observations
         \<and> (\<forall>t. Suc t < length observations \<longrightarrow> next_values ! t = vf (enc (observations ! Suc t)))
         \<and> next_values ! (length observations - 1) = vf (enc (next_observations ! (length observations - 1)))
         \<and> (\<forall>other. length other = length observations
               \<and> other ! (length observations - 1) = next_observations ! (length observations - 1) \<longrightarrow>
             gae_arguments encoder_fn value_fn cfg ps observations other dones rewards
               = (values, next_values, discounts, rewards1)
             \<and> compute_values_gaes encoder_fn value_fn calculate_gaes_targets cfg ps
                 observations other dones rewards
               = compute_values_gaes encoder_fn value_fn calculate_gaes_targets cfg ps
                 observations next_observations dones rewards)"
proof -
  let ?T = "length observations"
  have ne: "next_observations \<noteq> []" using assms(4,5) by auto
  have nv: "next_values = map (\<lambda>x. vf (enc x)) (tl observations @ [last next_observations])"
    by (rule gae_values_rowwise[OF assms(1) assms(2) assms(3) ne assms(5)])
  have len: "length next_values = ?T"
    using assms(5) by (simp add: nv)
  have inner: "\<forall>t. Suc t < ?T \<longrightarrow> next_values ! t = vf (enc (observations ! Suc t))"
  proof (intro allI impI)
    fix t assume t: "Suc t < ?T"
    then have "t < length (tl observations)" by simp
    then have "next_values ! t = vf (enc (tl observations ! t))"
      by (simp add: nv nth_append)
    then show "next_values ! t = vf (enc (observations ! Suc t))"
      using t by (simp add: nth_tl)
  qed
  have lastv: "next_values ! (?T - 1) = vf (enc (next_observations ! (?T - 1)))"
  proof -
    have "length (tl observations) = ?T - 1" by simp
    then have "next_values ! (?T - 1) = vf (enc (last next_observations))"
      by (simp add: nv nth_append)
    then show ?thesis using ne assms(4) by (simp add: last_conv_nth)
  qed
  have indep: "\<forall>other. length other = ?T
               \<and> other ! (?T - 1) = next_observations ! (?T - 1) \<longrightarrow>
             gae_arguments encoder_fn value_fn cfg ps observations other dones rewards
               = (values, next_values, discounts, rewards1)
             \<and> compute_values_gaes encoder_fn value_fn calculate_gaes_targets cfg ps
                 observations other dones rewards
               = compute_values_gaes encoder_fn value_fn calculate_gaes_targets cfg ps
                 observations next_observations dones rewards"
  proof (intro allI impI)
    fix other
    assume o: "length other = ?T \<and> other ! (?T - 1) = next_observations ! (?T - 1)"
    then have "other \<noteq> []" using assms(5) by auto
    then have "last_slice other = last_slice next_observations"
      using o ne assms(4) by (simp add: last_slice_def last_conv_nth)
    then have "gae_arguments encoder_fn value_fn cfg ps observations other dones rewards
           = gae_arguments encoder_fn value_fn cfg ps observations next_observations dones rewards"
      by (rule gae_arguments_last_only)
    then show "gae_arguments encoder_fn value_fn cfg ps observations other dones rewards
               = (values, next_values, discounts, rewards1)
             \<and> compute_values_gaes encoder_fn value_fn calculate_gaes_targets cfg ps
                 observations other dones rewards
               = compute_values_gaes encoder_fn value_fn calculate_gaes_targets cfg ps
                 observations next_observations dones rewards"
      using assms(1) by (simp add: compute_values_gaes_def)
  qed
  from len inner lastv indep show ?thesis by blast
qed

theorem next_values_from_observations_witness:
  "gae_arguments (\<lambda>p xs. map (\<lambda>x. p + x) xs) (\<lambda>p hs. map (\<lambda>h. [p * h]) hs)
       \<lparr>gamma = 1 / 2, lambda = 1, normalize = False, num_epochs = 1\<rparr>
       \<lparr>params_encoder = 1, params_value = 2\<rparr> [1, 2, 3 :: real] [2, 9, 7] [0, 0, 1] [5, 6, 8]
     = ([[4], [6], [8 :: real]], [[6], [8], [16]], [[1 / 2], [1 / 2], [0]], [[5], [6], [8]])
   \<and> [[6], [8], [16 :: real]] ! 1 = [2 * (1 + [1, 2, 3] ! Suc 1)]
   \<and> [[6], [8], [16 :: real]] ! (length [1, 2, 3 :: real] - 1) = [2 * (1 + [2, 9, 7] ! (length [1, 2, 3 :: real] - 1))]
   \<and> gae_arguments (\<lambda>p xs. map (\<lambda>x. p + x) xs) (\<lambda>p hs. map (\<lambda>h. [p * h]) hs)
       \<lparr>gamma = 1 / 2, lambda = 1, normalize = False, num_epochs = 1\<rparr>
       \<lparr>params_encoder = 1, params_value = 2\<rparr> [1, 2, 3 :: real] [40, 50, 7] [0, 0, 1] [5, 6, 8]
     = ([[4], [6], [8 :: real]], [[6], [8], [16]], [[1 / 2], [1 / 2], [0]], [[5], [6], [8]])"
proof -
  let ?enc = "\<lambda>(p::real) xs. map (\<lambda>x. p + x) xs"
  let ?val = "\<lambda>(p::real) hs. map (\<lambda>h. [p * h]) hs"
  let ?cfg = "\<lparr>gamma = 1 / 2, lambda = 1, normalize = False, num_epochs = 1\<rparr>"
  let ?par = "\<lparr>params_encoder = 1 :: real, params_value = 2 :: real\<rparr>"
  have h: "gae_arguments ?enc ?val ?cfg ?par [1, 2, 3 :: real] [2, 9, 7] [0, 0, 1] [5, 6, 8]
     = ([[4], [6], [8 :: real]], [[6], [8], [16]], [[1 / 2], [1 / 2], [0]], [[5], [6], [8]])"
    by (simp add: gae_arguments_def last_slice_def)
  have e: "\<And>xs. ?enc (params_encoder ?par) xs = map (\<lambda>x. 1 + x) xs" by simp
  have v: "\<And>hs. ?val (params_value ?par) hs = map (\<lambda>h. [2 * h]) hs" by simp
  have l: "length [2, 9, 7 :: real] = length [1, 2, 3 :: real]" by simp
  have n: "[1, 2, 3 :: real] \<noteq> []" by simp
  note t = next_values_from_observations[OF h e v l n, of "\<lambda>v nv d r l n. (d, r)"]
  have a: "[[6], [8], [16 :: real]] ! 1 = [2 * (1 + [1, 2, 3] ! Suc 1)]"
    using t[THEN conjunct2, THEN conjunct1, rule_format, of 1] by simp
  have b: "[[6], [8], [16 :: real]] ! (length [1, 2, 3 :: real] - 1)
             = [2 * (1 + [2, 9, 7] ! (length [1, 2, 3 :: real] - 1))]"
    using t[THEN conjunct2, THEN conjunct2, THEN conjunct1] by simp
  have c: "gae_arguments ?enc ?val ?cfg ?par [1, 2, 3 :: real] [40, 50, 7] [0, 0, 1] [5, 6, 8]
     = ([[4], [6], [8 :: real]], [[6], [8], [16]], [[1 / 2], [1 / 2], [0]], [[5], [6], [8]])"
    using t[THEN conjunct2, THEN conjunct2, THEN conjunct2, rule_format, of "[40, 50, 7]"] by simp
  from h a b c show ?thesis by blast
qed

section \<open>Properties of the update loop\<close>

lemma random_split_2: "random_split prng key 2 = [prng key 2 0, prng key 2 1]"
  by (simp add: random_split_def eval_nat_numeral upt_rec)

lemma update_epochs_run:
  "update_epochs step prng ex m
     (epoch_state step prng ex state key j, carried_key prng key j, acc, io)
   = (epoch_state step prng ex state key (j + m), carried_key prng key (j + m),
      acc + (\<Sum>i = j..<j + m. epoch_loss step prng ex state key i),
      if m = 0 then io else Some (epoch_info step prng ex state key (j + m - 1)))"
proof (induction m arbitrary: j acc io)
  case 0
  show ?case by simp
next
  case (Suc m)
  have "update_epochs step prng ex (Suc m)
          (epoch_state step prng ex state key j, carried_key prng key j, acc, io)
        = update_epochs step prng ex m
          (epoch_state step prng ex state key (Suc j), carried_key prng key (Suc j),
           acc + epoch_loss step prng ex state key j, Some (epoch_info step prng ex state key j))"
    by (simp add: random_split_2 epoch_subkey_def epoch_loss_def epoch_info_def split: prod.splits)
  also have "\<dots> = (epoch_state step prng ex state key (Suc j + m), carried_key prng key (Suc j + m),
      acc + epoch_loss step prng ex state key j + (\<Sum>i = Suc j..<Suc j + m. epoch_loss step prng ex state key i),
      if m = 0 then Some (epoch_info step prng ex state key j)
      else Some (epoch_info step prng ex state key (Suc j + m - 1)))"
    by (rule Suc.IH)
  finally show ?case
    by (simp add: sum.atLeast_Suc_lessThan add.assoc)
qed

text \<open>
  C5. With \<open>num_epochs\<close> at least one, one call of the update function runs the gradient
  step \<open>num_epochs\<close> times, each on the state the step before returned and with the sub-key
  split off the carried key in that epoch. It returns the state of the last step, and the
  diagnostics of the last step with \<open>total_loss\<close> set to the sum of the losses of all epochs
  divided by \<open>num_epochs\<close>.
\<close>

theorem update_runs_num_epochs:
  assumes "0 < num_epochs cfg"
    and "experiences = process_experience_fn (params state) sample"
    and "n = nat (num_epochs cfg)"
  shows "update_fn process_experience_fn update_step_fn prng cfg state key sample =
           Inr (epoch_state update_step_fn prng experiences state key n,
                (epoch_info update_step_fn prng experiences state key (n - 1))
                  (''total_loss'' \<mapsto>
                     Scalar ((\<Sum>i<n. epoch_loss update_step_fn prng experiences state key i) / real n)))"
proof -
  have n: "0 < n" "real_of_int (num_epochs cfg) = real n"
    using assms(1,3) by simp_all
  have "update_epochs update_step_fn prng experiences n (state, key, 0, None)
        = (epoch_state update_step_fn prng experiences state key n, carried_key prng key n,
           (\<Sum>i<n. epoch_loss update_step_fn prng experiences state key i),
           Some (epoch_info update_step_fn prng experiences state key (n - 1)))"
    using update_epochs_run[of update_step_fn prng experiences n state key 0 0 None] n(1)
    by (simp add: atLeast0LessThan)
  then show ?thesis
    using assms(1) n(2) by (simp add: update_fn_def assms(2)[symmetric] assms(3)[symmetric])
qed

theorem update_runs_num_epochs_witness:
  "0 < num_epochs \<lparr>gamma = 1 / 2, lambda = 1, normalize = False, num_epochs = 2\<rparr>
   \<and> update_fn (\<lambda>p sample. sample)
         (\<lambda>state k ex. (state\<lparr>params := params state + k + ex\<rparr>, real k,
                         [''last_key'' \<mapsto> Scalar (real k)]))
         (\<lambda>key num i. key * 10 + i)
         \<lparr>gamma = 1 / 2, lambda = 1, normalize = False, num_epochs = 2\<rparr>
         \<lparr>params = 0 :: nat, opt_state = ()\<rparr> (3 :: nat) (5 :: nat)
       = Inr (\<lparr>params = 342, opt_state = ()\<rparr>,
              [''last_key'' \<mapsto> Scalar 301, ''total_loss'' \<mapsto> Scalar 166])"
proof -
  let ?cfg = "\<lparr>gamma = 1 / 2, lambda = 1, normalize = False, num_epochs = 2\<rparr>"
  let ?step = "\<lambda>(state :: (nat, unit) train_state) (k :: nat) (ex :: nat).
      (state\<lparr>params := params state + k + ex\<rparr>, real k, [''last_key'' \<mapsto> Scalar (real k)])"
  let ?prng = "\<lambda>(key :: nat) (num :: nat) (i :: nat). key * 10 + i"
  have h: "0 < num_epochs ?cfg" by simp
  from update_runs_num_epochs[where cfg = ?cfg and experiences = 5
      and process_experience_fn = "\<lambda>(p :: nat) (sample :: nat). sample"
      and state = "\<lparr>params = 0 :: nat, opt_state = ()\<rparr>" and sample = 5 and n = 2
      and update_step_fn = ?step and prng = ?prng and key = 3] h
  show ?thesis
    by (simp add: epoch_subkey_def epoch_loss_def epoch_info_def eval_nat_numeral lessThan_Suc)
qed

section \<open>Properties of the lifts\<close>

lemma sequence_map_Inr:
  assumes "\<And>x. x \<in> set xs \<Longrightarrow> f x = Inr (g x)"
  shows "sequence (map f xs) = Inr (map g xs)"
  using assms by (induction xs) simp_all

lemma squeeze0_expand_dims0: "squeeze0 (expand_dims0 a) = Inr a"
  by (simp add: squeeze0_def expand_dims0_def)

lemma nth_concat_uniform:
  assumes "\<And>x. x \<in> set xss \<Longrightarrow> length x = n" "i < length xss" "j < n"
  shows "concat xss ! (i * n + j) = xss ! i ! j"
  using assms
proof (induction xss arbitrary: i)
  case Nil
  then show ?case by simp
next
  case (Cons x xss)
  have lx: "length x = n" using Cons.prems(1) by simp
  show ?case
  proof (cases i)
    case 0
    then show ?thesis using Cons.prems(3) lx by (simp add: nth_append)
  next
    case (Suc k)
    have "concat xss ! (k * n + j) = xss ! k ! j"
      using Cons.IH[of k] Cons.prems Suc by simp
    moreover have "Suc k * n + j - n = k * n + j" by simp
    ultimately show ?thesis using Suc lx by (simp add: nth_append)
  qed
qed

lemma length_concat_uniform:
  assumes "\<And>x. x \<in> set xss \<Longrightarrow> length x = n"
  shows "length (concat xss) = length xss * n"
  using assms by (induction xss) simp_all

lemma vmap_axis1_ok:
  assumes len: "length keys = n" and pos: "0 < n"
    and dims: "\<And>a. a \<in> set flds \<Longrightarrow> dim1 a = n"
    and shp: "\<And>e. e < n \<Longrightarrow> length (f (keys ! e) (map (column e) flds)) = m
                \<and> (\<forall>c<m. length (f (keys ! e) (map (column e) flds) ! c) = D)"
  shows "vmap_axis1 f keys flds =
           Inr (map (\<lambda>c. Arr n (map (\<lambda>d. map (\<lambda>e. f (keys ! e) (map (column e) flds) ! c ! d) [0..<n])
                                   [0..<D]))
                  [0..<m])"
proof -
  let ?g = "\<lambda>e. f (keys ! e) (map (column e) flds)"
  let ?outs = "map ?g [0..<n]"
  have hd: "hd ?outs = ?g 0"
    using pos by (simp add: hd_map upt_conv_Cons)
  have m: "length (?g 0) = m" using shp[OF pos] by simp
  have D: "\<And>c. c < m \<Longrightarrow> length (?g 0 ! c) = D" using shp[OF pos] by simp
  have nodim: "\<not> (\<exists>a\<in>set flds. dim1 a \<noteq> n)" using dims by auto
  have "vmap_axis1 f keys flds =
          Inr (map (\<lambda>c. Arr n (map (\<lambda>d. map (\<lambda>out. out ! c ! d) ?outs) [0..<length (?g 0 ! c)]))
                 [0..<length (?g 0)])"
    unfolding vmap_axis1_def Let_def len hd using nodim pos by simp
  also have "\<dots> = Inr (map (\<lambda>c. Arr n (map (\<lambda>d. map (\<lambda>e. ?g e ! c ! d) [0..<n]) [0..<D])) [0..<m])"
    using D by (simp add: m comp_def)
  finally show ?thesis .
qed

lemma tree_map_dict_ok:
  assumes "\<And>d'. d' \<in> set ds \<Longrightarrow> set (map fst d') = set (map fst d)"
    and "\<And>k. k \<in> set (map fst d) \<Longrightarrow> f (dict_get d k) (map (\<lambda>d'. dict_get d' k) ds) = Inr (g k)"
  shows "tree_map_dict f d ds = Inr (map (\<lambda>k. (k, g k)) (sort (map fst d)))"
proof -
  have "\<not> (\<exists>d'\<in>set ds. set (map fst d') \<noteq> set (map fst d))" using assms(1) by blast
  moreover have "sequence (map (\<lambda>k. case f (dict_get d k) (map (\<lambda>d'. dict_get d' k) ds) of
                                 Inl e \<Rightarrow> Inl e | Inr v \<Rightarrow> Inr (k, v)) (sort (map fst d)))
        = Inr (map (\<lambda>k. (k, g k)) (sort (map fst d)))"
    by (rule sequence_map_Inr) (simp add: assms(2))
  ultimately show ?thesis by (simp add: tree_map_dict_def)
qed

lemma concat_and_reshape_ok:
  assumes "xs \<noteq> []" and "\<And>y. y \<in> set xs \<Longrightarrow> length (rows y) = D"
  shows "concat_and_reshape xs = Inr (concat (map (\<lambda>d. concat (map (\<lambda>y. rows y ! d) xs)) [0..<D]))"
proof -
  obtain x rest where xs: "xs = x # rest" using assms(1) by (cases xs) auto
  have "\<not> (\<exists>y\<in>set rest. length (rows y) \<noteq> length (rows x))" using assms(2) xs by simp
  moreover have "length (rows x) = D" using assms(2) xs by simp
  ultimately show ?thesis
    by (simp add: concat_and_reshape_def concatenate_axis1_def reshape_merge_def xs)
qed

lemma tree_map_outputs_ok:
  assumes "outs \<noteq> []" and "\<And>out. out \<in> set outs \<Longrightarrow> length out = m"
    and "\<And>c. c < m \<Longrightarrow> g (map (\<lambda>out. out ! c) outs) = Inr (h c)"
  shows "tree_map_outputs g outs = Inr (map h [0..<m])"
proof -
  obtain first rest where o: "outs = first # rest" using assms(1) by (cases outs) auto
  have "\<not> (\<exists>out\<in>set rest. length out \<noteq> length first)" using assms(2) o by simp
  moreover have "length first = m" using assms(2) o by simp
  moreover have "sequence (map (\<lambda>c. g (map (\<lambda>out. out ! c) outs)) [0..<m]) = Inr (map h [0..<m])"
    by (rule sequence_map_Inr) (simp add: assms(3))
  ultimately show ?thesis
    by (simp add: tree_map_outputs_def o)
qed

lemma agent_env_keys_fst: "map fst (agent_env_keys prng key d) = map fst d"
  by (induction d arbitrary: key) (auto simp: Let_def)

lemma length_random_split: "length (random_split prng key n) = n"
  by (simp add: random_split_def)

lemma agent_env_keys_length:
  assumes "a \<in> set (map fst d)"
  shows "length (dict_get (agent_env_keys prng key d) a) = dim1 (dict_get d a)"
  using assms
proof (induction d arbitrary: key)
  case Nil
  then show ?case by simp
next
  case (Cons p d)
  obtain b obs where p: "p = (b, obs)" by (cases p)
  show ?case
  proof (cases "a = b")
    case True
    then show ?thesis by (simp add: p dict_get_def Let_def length_random_split)
  next
    case False
    then have "a \<in> set (map fst d)" using Cons.prems p by simp
    from Cons.IH[OF this] show ?thesis using False by (simp add: p dict_get_def Let_def)
  qed
qed

lemma dict_get_in_values:
  assumes "k \<in> set (map fst d)"
  shows "dict_get d k \<in> set (map snd d)"
proof -
  obtain v where v: "map_of d k = Some v"
    using assms by (metis map_of_eq_None_iff not_None_eq set_map)
  then have "(k, v) \<in> set d" by (rule map_of_SomeD)
  then show ?thesis using v by (force simp: dict_get_def)
qed

lemma random_split_hd: "hd (random_split prng key (Suc n)) = prng key (Suc n) 0"
  by (simp add: random_split_def upt_conv_Cons del: upt_Suc)

lemma random_split_tl:
  "tl (random_split prng key (Suc n)) = map (\<lambda>e. prng key (Suc n) (Suc e)) [0..<n]"
proof -
  have "[0..<Suc n] = 0 # map Suc [0..<n]"
    by (simp add: upt_conv_Cons map_Suc_upt del: upt_Suc)
  then show ?thesis by (simp add: random_split_def comp_def del: upt_Suc)
qed


lemma agent_env_keys_nth:
  assumes "j < length d" "distinct (map fst d)"
  shows "dict_get (agent_env_keys prng key d) (fst (d ! j))
           = map (\<lambda>e. prng (carried_env_key prng key (map (\<lambda>p. dim1 (snd p)) (take j d)))
                           (Suc (dim1 (snd (d ! j)))) (Suc e))
               [0..<dim1 (snd (d ! j))]"
  using assms
proof (induction d arbitrary: key j)
  case Nil
  then show ?case by simp
next
  case (Cons p d)
  obtain a obs where p: "p = (a, obs)" by (cases p)
  show ?case
  proof (cases j)
    case 0
    then show ?thesis by (simp add: p dict_get_def Let_def random_split_tl)
  next
    case (Suc i)
    have i: "i < length d" using Cons.prems(1) Suc by simp
    have dist: "distinct (map fst d)" using Cons.prems(2) by simp
    have "fst (d ! i) \<in> set (map fst d)" using i by simp
    then have neq: "fst (d ! i) \<noteq> a" using Cons.prems(2) p by auto
    have "dict_get (agent_env_keys prng key (p # d)) (fst ((p # d) ! j))
            = dict_get (agent_env_keys prng (prng key (Suc (dim1 obs)) 0) d) (fst (d ! i))"
      using neq by (simp add: p Suc dict_get_def Let_def random_split_hd)
    also have "\<dots> = map (\<lambda>e. prng (carried_env_key prng (prng key (Suc (dim1 obs)) 0)
                                        (map (\<lambda>p. dim1 (snd p)) (take i d)))
                           (Suc (dim1 (snd (d ! i)))) (Suc e))
               [0..<dim1 (snd (d ! i))]"
      by (rule Cons.IH[OF i dist])
    finally show ?thesis by (simp add: p Suc)
  qed
qed



lemma sorted_items_fst: "map fst (sorted_items d) = sort (map fst d)"
  by (simp add: sorted_items_def comp_def)

lemma dict_get_sorted_items:
  assumes "a \<in> set (map fst d)"
  shows "dict_get (sorted_items d) a = dict_get d a"
proof -
  have "map_of (map (\<lambda>k. (k, dict_get d k)) (sort (map fst d))) a = Some (dict_get d a)"
    using assms by (simp add: map_of_map_restrict)
  then show ?thesis by (simp add: sorted_items_def dict_get_def)
qed

lemma sorted_items_nth:
  assumes "i < length d"
  shows "sorted_items d ! i = (sort (map fst d) ! i, dict_get d (sort (map fst d) ! i))"
  using assms by (simp add: sorted_items_def)

lemma sort_sort: "sort (sort xs) = sort (xs :: 'a :: linorder list)"
  by (simp add: sorted_sort_id)

lemma sequence_the_dict2: "sequence (map the_dict2 (map Dict2 dicts)) = Inr dicts"
  by (induction dicts) simp_all

lemma vectorized_parallel_outputs:
  fixes process_experience_fn :: "'s \<Rightarrow> 'key \<Rightarrow> ('k :: linorder, 'x) pytree experience \<Rightarrow> 'y list list"
  assumes batch: "vectorized_parallel_batch dicts T E" and E: "0 < E"
    and shp: "\<And>k fs. length fs = length dicts \<Longrightarrow> (\<forall>f\<in>set fs. length f = T) \<Longrightarrow>
               length (inner_process_experience_fn process_experience_fn state k fs) = m
               \<and> (\<forall>c<m. length (inner_process_experience_fn process_experience_fn state k fs ! c) = D)"
  shows "tree_map_dict (vmap_axis1 (inner_process_experience_fn process_experience_fn state))
           (agent_env_keys prng key (sorted_items (hd dicts))) dicts
         = Inr (map (\<lambda>a. (a, map (\<lambda>c. Arr E (map (\<lambda>d. map (\<lambda>e.
                     inner_process_experience_fn process_experience_fn state
                       (dict_get (agent_env_keys prng key (sorted_items (hd dicts))) a ! e)
                       (map (column e) (map (\<lambda>d'. dict_get d' a) dicts)) ! c ! d) [0..<E]) [0..<D])) [0..<m]))
                  (sort (map fst (hd dicts))))"
proof -
  let ?keys = "agent_env_keys prng key (sorted_items (hd dicts))"
  let ?f = "inner_process_experience_fn process_experience_fn state"
  have b1: "dicts \<noteq> []" and b2: "hd dicts \<noteq> []"
    and b3: "\<And>d. d \<in> set dicts \<Longrightarrow> set (map fst d) = set (map fst (hd dicts))"
    and b4: "\<And>d a. d \<in> set dicts \<Longrightarrow> a \<in> set (map snd d) \<Longrightarrow> dim1 a = E \<and> length (rows a) = T"
    using batch unfolding vectorized_parallel_batch_def by blast+
  have hd_in: "hd dicts \<in> set dicts" using b1 by simp
  have kf: "map fst ?keys = sort (map fst (hd dicts))"
    by (simp only: agent_env_keys_fst sorted_items_fst)
  have keyset: "\<And>d'. d' \<in> set dicts \<Longrightarrow> set (map fst d') = set (map fst ?keys)"
    using b3 by (simp only: kf set_sort)
  have arrs: "\<And>d' a. d' \<in> set dicts \<Longrightarrow> a \<in> set (map fst (hd dicts)) \<Longrightarrow>
                 dim1 (dict_get d' a) = E \<and> length (rows (dict_get d' a)) = T"
  proof -
    fix d' a assume d': "d' \<in> set dicts" and a: "a \<in> set (map fst (hd dicts))"
    then have "a \<in> set (map fst d')" using b3[OF d'] by simp
    then have "dict_get d' a \<in> set (map snd d')" by (rule dict_get_in_values)
    then show "dim1 (dict_get d' a) = E \<and> length (rows (dict_get d' a)) = T"
      by (rule b4[OF d'])
  qed
  have each: "\<And>a. a \<in> set (map fst ?keys) \<Longrightarrow>
      vmap_axis1 ?f (dict_get ?keys a) (map (\<lambda>d'. dict_get d' a) dicts)
      = Inr (map (\<lambda>c. Arr E (map (\<lambda>d. map (\<lambda>e. ?f (dict_get ?keys a ! e)
                     (map (column e) (map (\<lambda>d'. dict_get d' a) dicts)) ! c ! d) [0..<E]) [0..<D])) [0..<m])"
  proof -
    fix a assume "a \<in> set (map fst ?keys)"
    then have a: "a \<in> set (map fst (hd dicts))" by (simp only: kf set_sort)
    then have a': "a \<in> set (map fst (sorted_items (hd dicts)))"
      by (simp only: sorted_items_fst set_sort)
    have len: "length (dict_get ?keys a) = E"
      using agent_env_keys_length[OF a'] arrs[OF hd_in a] dict_get_sorted_items[OF a] by simp
    have dims: "\<And>x. x \<in> set (map (\<lambda>d'. dict_get d' a) dicts) \<Longrightarrow> dim1 x = E"
    proof -
      fix x assume "x \<in> set (map (\<lambda>d'. dict_get d' a) dicts)"
      then obtain d' where "d' \<in> set dicts" "x = dict_get d' a" by auto
      then show "dim1 x = E" using arrs[of d' a] a by simp
    qed
    have sh: "\<And>e. e < E \<Longrightarrow>
        length (?f (dict_get ?keys a ! e) (map (column e) (map (\<lambda>d'. dict_get d' a) dicts))) = m
        \<and> (\<forall>c<m. length (?f (dict_get ?keys a ! e) (map (column e) (map (\<lambda>d'. dict_get d' a) dicts)) ! c) = D)"
    proof -
      fix e assume "e < E"
      have "\<forall>f\<in>set (map (column e) (map (\<lambda>d'. dict_get d' a) dicts)). length f = T"
      proof
        fix f assume "f \<in> set (map (column e) (map (\<lambda>d'. dict_get d' a) dicts))"
        then obtain d' where "d' \<in> set dicts" "f = column e (dict_get d' a)" by auto
        then show "length f = T" using arrs[of d' a] a by (simp add: column_def)
      qed
      then show "length (?f (dict_get ?keys a ! e) (map (column e) (map (\<lambda>d'. dict_get d' a) dicts))) = m
        \<and> (\<forall>c<m. length (?f (dict_get ?keys a ! e) (map (column e) (map (\<lambda>d'. dict_get d' a) dicts)) ! c) = D)"
        by (intro shp) simp
    qed
    show "vmap_axis1 ?f (dict_get ?keys a) (map (\<lambda>d'. dict_get d' a) dicts)
      = Inr (map (\<lambda>c. Arr E (map (\<lambda>d. map (\<lambda>e. ?f (dict_get ?keys a ! e)
                     (map (column e) (map (\<lambda>d'. dict_get d' a) dicts)) ! c ! d) [0..<E]) [0..<D])) [0..<m])"
      by (rule vmap_axis1_ok[where f = ?f and keys = "dict_get ?keys a"
            and flds = "map (\<lambda>d'. dict_get d' a) dicts" and m = m and D = D, OF len E dims sh])
  qed
  show ?thesis
    using tree_map_dict_ok[of dicts ?keys "vmap_axis1 ?f", OF keyset each]
    by (simp only: kf sort_sort)
qed

lemma index_bound:
  fixes i e A E :: nat
  assumes "i < A" "e < E"
  shows "i * E + e < A * E"
proof -
  have "i * E + e < Suc i * E" using assms(2) by simp
  also have "\<dots> \<le> A * E" using assms(1) by (intro mult_le_mono1) simp
  finally show ?thesis .
qed

lemma merged_layout:
  fixes F :: "'a \<Rightarrow> nat \<Rightarrow> 'y list list"
  assumes "agents \<noteq> []"
  shows "tree_map_outputs concat_and_reshape
           (map (\<lambda>a. map (\<lambda>c. Arr E (map (\<lambda>d. map (\<lambda>e. F a e ! c ! d) [0..<E]) [0..<D])) [0..<m]) agents)
         = Inr (map (\<lambda>c. concat (map (\<lambda>d. concat (map (\<lambda>a. map (\<lambda>e. F a e ! c ! d) [0..<E]) agents)) [0..<D]))
                  [0..<m])"
proof (rule tree_map_outputs_ok)
  show "map (\<lambda>a. map (\<lambda>c. Arr E (map (\<lambda>d. map (\<lambda>e. F a e ! c ! d) [0..<E]) [0..<D])) [0..<m]) agents \<noteq> []"
    using assms by simp
next
  fix out
  assume "out \<in> set (map (\<lambda>a. map (\<lambda>c. Arr E (map (\<lambda>d. map (\<lambda>e. F a e ! c ! d) [0..<E]) [0..<D])) [0..<m]) agents)"
  then show "length out = m" by auto
next
  fix c assume c: "c < m"
  let ?xs = "map (\<lambda>a. Arr E (map (\<lambda>d. map (\<lambda>e. F a e ! c ! d) [0..<E]) [0..<D])) agents"
  have sel: "map (\<lambda>out. out ! c)
               (map (\<lambda>a. map (\<lambda>c. Arr E (map (\<lambda>d. map (\<lambda>e. F a e ! c ! d) [0..<E]) [0..<D])) [0..<m]) agents)
             = ?xs"
    using c by simp
  have ne: "?xs \<noteq> []" using assms by simp
  have len: "\<And>y. y \<in> set ?xs \<Longrightarrow> length (rows y) = D" by auto
  have "concat_and_reshape ?xs = Inr (concat (map (\<lambda>d. concat (map (\<lambda>y. rows y ! d) ?xs)) [0..<D]))"
    by (rule concat_and_reshape_ok[OF ne len])
  also have "map (\<lambda>d. concat (map (\<lambda>y. rows y ! d) ?xs)) [0..<D]
             = map (\<lambda>d. concat (map (\<lambda>a. map (\<lambda>e. F a e ! c ! d) [0..<E]) agents)) [0..<D]"
    by (rule map_cong) (simp_all add: comp_def)
  finally show "concat_and_reshape
           (map (\<lambda>out. out ! c)
             (map (\<lambda>a. map (\<lambda>c. Arr E (map (\<lambda>d. map (\<lambda>e. F a e ! c ! d) [0..<E]) [0..<D])) [0..<m]) agents))
         = Inr (concat (map (\<lambda>d. concat (map (\<lambda>a. map (\<lambda>e. F a e ! c ! d) [0..<E]) agents)) [0..<D]))"
    by (simp only: sel)
qed

lemma merged_inner_length:
  fixes F :: "'a \<Rightarrow> nat \<Rightarrow> 'y list list"
  shows "length (concat (map (\<lambda>a. map (\<lambda>e. F a e ! c ! d) [0..<E]) agents)) = length agents * E"
proof -
  have "length (concat (map (\<lambda>a. map (\<lambda>e. F a e ! c ! d) [0..<E]) agents))
          = length (map (\<lambda>a. map (\<lambda>e. F a e ! c ! d) [0..<E]) agents) * E"
    by (rule length_concat_uniform) auto
  then show ?thesis by simp
qed

lemma merged_length:
  fixes F :: "'a \<Rightarrow> nat \<Rightarrow> 'y list list"
  shows "length (concat (map (\<lambda>d. concat (map (\<lambda>a. map (\<lambda>e. F a e ! c ! d) [0..<E]) agents)) [0..<D]))
           = D * (length agents * E)"
proof -
  let ?inner = "\<lambda>d. concat (map (\<lambda>a. map (\<lambda>e. F a e ! c ! d) [0..<E]) agents)"
  have "length (concat (map ?inner [0..<D])) = length (map ?inner [0..<D]) * (length agents * E)"
    by (rule length_concat_uniform) (auto simp: merged_inner_length)
  then show ?thesis by simp
qed

lemma merged_index:
  fixes F :: "'a \<Rightarrow> nat \<Rightarrow> 'y list list"
  assumes "t < D" "i < length agents" "e < E"
  shows "concat (map (\<lambda>d. concat (map (\<lambda>a. map (\<lambda>e. F a e ! c ! d) [0..<E]) agents)) [0..<D])
           ! (t * (length agents * E) + i * E + e) = F (agents ! i) e ! c ! t"
proof -
  let ?A = "length agents"
  let ?inner = "\<lambda>d. concat (map (\<lambda>a. map (\<lambda>e. F a e ! c ! d) [0..<E]) agents)"
  have j: "i * E + e < ?A * E" by (rule index_bound[OF assms(2,3)])
  have "concat (map ?inner [0..<D]) ! (t * (?A * E) + (i * E + e)) = map ?inner [0..<D] ! t ! (i * E + e)"
    by (rule nth_concat_uniform) (auto simp: assms(1) j merged_inner_length)
  also have "\<dots> = ?inner t ! (i * E + e)" using assms(1) by simp
  also have "\<dots> = map (\<lambda>a. map (\<lambda>e. F a e ! c ! t) [0..<E]) agents ! i ! e"
    by (rule nth_concat_uniform) (auto simp: assms(2,3))
  also have "\<dots> = F (agents ! i) e ! c ! t" using assms(2,3) by simp
  finally show ?thesis by (simp add: add.assoc)
qed


lemma map_const_replicate:
  assumes "\<And>x. x \<in> set xs \<Longrightarrow> f x = c"
  shows "map f xs = replicate (length xs) c"
  using assms by (induction xs) simp_all

lemma vectorized_parallel_key:
  assumes batch: "vectorized_parallel_batch dicts T E"
    and i: "i < length (hd dicts)" and e: "e < E"
  shows "dict_get (agent_env_keys prng key (sorted_items (hd dicts))) (sort (map fst (hd dicts)) ! i) ! e
           = prng (carried_env_key prng key (replicate i E)) (Suc E) (Suc e)"
proof -
  let ?d = "hd dicts"
  let ?s = "sorted_items ?d"
  have b1: "dicts \<noteq> []"
    using batch unfolding vectorized_parallel_batch_def by blast
  have hd_in: "?d \<in> set dicts" using b1 by simp
  have b3: "distinct (map fst ?d)"
    using batch hd_in unfolding vectorized_parallel_batch_def by blast
  have b4: "\<And>a. a \<in> set (map snd ?d) \<Longrightarrow> dim1 a = E"
    using batch hd_in unfolding vectorized_parallel_batch_def by blast
  have dims: "\<And>a. a \<in> set (map fst ?d) \<Longrightarrow> dim1 (dict_get ?d a) = E"
  proof -
    fix a assume "a \<in> set (map fst ?d)"
    then have "dict_get ?d a \<in> set (map snd ?d)" by (rule dict_get_in_values)
    then show "dim1 (dict_get ?d a) = E" by (rule b4)
  qed
  have len: "length ?s = length ?d" by (simp add: sorted_items_def)
  have dist: "distinct (map fst ?s)"
    using b3 by (simp only: sorted_items_fst distinct_sort)
  have snds: "\<And>p. p \<in> set ?s \<Longrightarrow> dim1 (snd p) = E"
  proof -
    fix p assume "p \<in> set ?s"
    then obtain k where "k \<in> set (sort (map fst ?d))" "p = (k, dict_get ?d k)"
      unfolding sorted_items_def by auto
    then show "dim1 (snd p) = E" using dims[of k] by simp
  qed
  have ilen: "i < length ?s" using i len by simp
  have fsti: "fst (?s ! i) = sort (map fst ?d) ! i"
    using i by (simp only: sorted_items_nth fst_conv)
  have dimi: "dim1 (snd (?s ! i)) = E"
    using ilen snds[of "?s ! i"] by simp
  have "\<And>p. p \<in> set (take i ?s) \<Longrightarrow> dim1 (snd p) = E"
    using snds in_set_takeD by fast
  then have "map (\<lambda>p. dim1 (snd p)) (take i ?s) = replicate (length (take i ?s)) E"
    by (rule map_const_replicate)
  then have pre: "map (\<lambda>p. dim1 (snd p)) (take i ?s) = replicate i E"
    using ilen by simp
  have "dict_get (agent_env_keys prng key ?s) (fst (?s ! i))
          = map (\<lambda>e. prng (carried_env_key prng key (map (\<lambda>p. dim1 (snd p)) (take i ?s)))
                          (Suc (dim1 (snd (?s ! i)))) (Suc e))
              [0..<dim1 (snd (?s ! i))]"
    by (rule agent_env_keys_nth[OF ilen dist])
  then have "dict_get (agent_env_keys prng key ?s) (sort (map fst ?d) ! i)
          = map (\<lambda>e. prng (carried_env_key prng key (replicate i E)) (Suc E) (Suc e)) [0..<E]"
    by (simp only: fsti dimi pre)
  then show ?thesis using e by simp
qed

text \<open>
  C1. For a stacked experience of \<open>A\<close> agents, each with \<open>T\<close> steps in \<open>E\<close> environments, and a
  function whose outputs have leading size \<open>D\<close> on every slice, the lift with vectorized
  and parallel set returns, for every output, an array of leading size \<open>D * A * E\<close>. Its
  entry \<open>t * (A * E) + i * E + e\<close> is entry \<open>t\<close> of what the function returns on the slice of
  environment \<open>e\<close> of the \<open>i\<close>-th agent in sorted order, called with the sub-key of that
  agent and environment: number \<open>e + 1\<close> of the \<open>E + 1\<close> keys split from the key carried past
  the \<open>i\<close> agents before it.
\<close>

theorem vectorized_parallel_layout:
  fixes process_experience_fn :: "'s \<Rightarrow> 'key \<Rightarrow> ('k :: linorder, 'x) pytree experience \<Rightarrow> 'y list list"
  assumes unp: "unpack (stack_experiences raw) = map Dict2 dicts"
    and batch: "vectorized_parallel_batch dicts T E" and E: "0 < E"
    and shp: "\<And>k fs. length fs = length dicts \<Longrightarrow> (\<forall>f\<in>set fs. length f = T) \<Longrightarrow>
               length (process_experience_fn state k (experience_type (map Array1 fs))) = m
               \<and> (\<forall>c<m. length (process_experience_fn state k (experience_type (map Array1 fs)) ! c) = D)"
    and ag: "agents = sort (map fst (hd dicts))"
  shows "\<exists>out. process_experience_general_factory stack_experiences prng process_experience_fn True True
                  state key raw = Inr out
           \<and> length out = m
           \<and> (\<forall>c<m. length (out ! c) = D * (length agents * E)
                \<and> (\<forall>t<D. \<forall>i<length agents. \<forall>e<E.
                     out ! c ! (t * (length agents * E) + i * E + e)
                     = process_experience_fn state
                         (prng (carried_env_key prng key (replicate i E)) (Suc E) (Suc e))
                         (experience_type (map (\<lambda>d. Array1 (column e (dict_get d (agents ! i)))) dicts))
                       ! c ! t))"
proof -
  let ?f = "inner_process_experience_fn process_experience_fn state"
  let ?keys = "agent_env_keys prng key (sorted_items (hd dicts))"
  let ?F = "\<lambda>a e. ?f (dict_get ?keys a ! e) (map (column e) (map (\<lambda>d'. dict_get d' a) dicts))"
  let ?h = "\<lambda>c. concat (map (\<lambda>d. concat (map (\<lambda>a. map (\<lambda>e. ?F a e ! c ! d) [0..<E]) agents)) [0..<D])"
  have shp': "\<And>k fs. length fs = length dicts \<Longrightarrow> (\<forall>f\<in>set fs. length f = T) \<Longrightarrow>
               length (?f k fs) = m \<and> (\<forall>c<m. length (?f k fs ! c) = D)"
    using shp by (simp add: inner_process_experience_fn_def)
  have la: "length agents = length (hd dicts)" using ag by simp
  moreover have "hd dicts \<noteq> []" using batch by (simp add: vectorized_parallel_batch_def)
  ultimately have ne: "agents \<noteq> []" by auto
  have tm: "tree_map_dict (vmap_axis1 ?f) ?keys dicts
         = Inr (map (\<lambda>a. (a, map (\<lambda>c. Arr E (map (\<lambda>d. map (\<lambda>e. ?F a e ! c ! d) [0..<E]) [0..<D])) [0..<m]))
                  agents)"
    unfolding ag by (rule vectorized_parallel_outputs[OF batch E shp'])
  have sn: "map snd (map (\<lambda>a. (a, map (\<lambda>c. Arr E (map (\<lambda>d. map (\<lambda>e. ?F a e ! c ! d) [0..<E]) [0..<D])) [0..<m]))
                  agents)
            = map (\<lambda>a. map (\<lambda>c. Arr E (map (\<lambda>d. map (\<lambda>e. ?F a e ! c ! d) [0..<E]) [0..<D])) [0..<m]) agents"
    by (simp add: comp_def)
  have res: "process_experience_general_factory stack_experiences prng process_experience_fn True True
                  state key raw = Inr (map ?h [0..<m])"
    unfolding process_experience_general_factory_def Let_def unp
    by (simp only: sequence_the_dict2 tm sn merged_layout[OF ne] sum.case if_True simp_thms)
  have props: "\<forall>c<m. length (map ?h [0..<m] ! c) = D * (length agents * E)
                \<and> (\<forall>t<D. \<forall>i<length agents. \<forall>e<E.
                     map ?h [0..<m] ! c ! (t * (length agents * E) + i * E + e)
                     = process_experience_fn state
                         (prng (carried_env_key prng key (replicate i E)) (Suc E) (Suc e))
                         (experience_type (map (\<lambda>d. Array1 (column e (dict_get d (agents ! i)))) dicts))
                       ! c ! t)"
  proof (intro allI impI conjI)
    fix c assume c: "c < m"
    show "length (map ?h [0..<m] ! c) = D * (length agents * E)"
      using c merged_length[where F = ?F and c = c and E = E and agents = agents and D = D] by simp
  next
    fix c t i e assume c: "c < m" and t: "t < D" and i: "i < length agents" and e: "e < E"
    have k: "dict_get ?keys (agents ! i) ! e
               = prng (carried_env_key prng key (replicate i E)) (Suc E) (Suc e)"
      unfolding ag using vectorized_parallel_key[OF batch _ e, of i prng key] i la by simp
    have "map ?h [0..<m] ! c ! (t * (length agents * E) + i * E + e) = ?F (agents ! i) e ! c ! t"
      using c merged_index[OF t i e, where F = ?F and c = c] by simp
    then show "map ?h [0..<m] ! c ! (t * (length agents * E) + i * E + e)
                     = process_experience_fn state
                         (prng (carried_env_key prng key (replicate i E)) (Suc E) (Suc e))
                         (experience_type (map (\<lambda>d. Array1 (column e (dict_get d (agents ! i)))) dicts))
                       ! c ! t"
      by (simp add: k inner_process_experience_fn_def comp_def)
  qed
  from res props show ?thesis by (intro exI[of _ "map ?h [0..<m]"]) simp
qed

lemma example_run:
  "process_experience_general_factory (\<lambda>x. x) example_prng example_process True True () [] example_batch
     = Inr [[([1], 20), ([2], 21), ([1, 0], 10), ([2, 0], 11), ([1], 22), ([2], 23), ([1, 0], 12), ([2, 0], 13)],
            [([1], 30), ([2], 31), ([1, 0], 40), ([2, 0], 41), ([1], 32), ([2], 33), ([1, 0], 42), ([2, 0], 43)]]"
  by code_simp

theorem vectorized_parallel_layout_witness:
  "process_experience_general_factory (\<lambda>x. x) example_prng example_process True True () [] example_batch
     = Inr [[([1], 20), ([2], 21), ([1, 0], 10), ([2, 0], 11), ([1], 22), ([2], 23), ([1, 0], 12), ([2, 0], 13)],
            [([1], 30), ([2], 31), ([1, 0], 40), ([2, 0], 41), ([1], 32), ([2], 33), ([1, 0], 42), ([2, 0], 43)]]
   \<and> length [([1], 20 :: nat), ([2], 21), ([1, 0], 10), ([2, 0], 11), ([1], 22), ([2], 23), ([1, 0], 12), ([2, 0], 13)]
       = 2 * (2 * 2)
   \<and> [([1], 20), ([2], 21), ([1, 0], 10), ([2, 0], 11), ([1], 22), ([2], 23), ([1, 0], 12), ([2, 0], 13)]
         ! (1 * (2 * 2) + 1 * 2 + 0)
       = example_process () [1, 0] (experience_type [Array1 [10, 12], Array1 [40, 42]]) ! 0 ! 1"
proof -
  let ?d0 = "[(1 :: nat, Arr 2 [[10 :: nat, 11], [12, 13]]), (0, Arr 2 [[20, 21], [22, 23]])]"
  let ?d1 = "[(0 :: nat, Arr 2 [[30 :: nat, 31], [32, 33]]), (1, Arr 2 [[40, 41], [42, 43]])]"
  let ?o0 = "[([1], 20 :: nat), ([2], 21), ([1, 0], 10), ([2, 0], 11), ([1], 22), ([2], 23), ([1, 0], 12), ([2, 0], 13)]"
  have unp: "unpack ((\<lambda>x. x) example_batch) = map Dict2 [?d0, ?d1]"
    by (simp add: unpack_def example_batch_def)
  have batch: "vectorized_parallel_batch [?d0, ?d1] 2 2"
    by (auto simp: vectorized_parallel_batch_def wf_arr_def)
  have E: "(0 :: nat) < 2" by simp
  have shp: "\<And>k fs. length fs = length [?d0, ?d1] \<Longrightarrow> (\<forall>f\<in>set fs. length f = 2) \<Longrightarrow>
               length (example_process () k (experience_type (map Array1 fs))) = 2
               \<and> (\<forall>c<2. length (example_process () k (experience_type (map Array1 fs)) ! c) = 2)"
  proof -
    fix k and fs :: "nat list list"
    assume l: "length fs = length [?d0, ?d1]" and t: "\<forall>f\<in>set fs. length f = 2"
    from l obtain a b where fs: "fs = [a, b]"
      by (cases fs; cases "tl fs") auto
    show "length (example_process () k (experience_type (map Array1 fs))) = 2
               \<and> (\<forall>c<2. length (example_process () k (experience_type (map Array1 fs)) ! c) = 2)"
      using t by (auto simp: fs example_process_def experience_type_def less_2_cases_iff)
  qed
  have ag: "[0, 1 :: nat] = sort (map fst (hd [?d0, ?d1]))" by simp
  from vectorized_parallel_layout[where stack_experiences = "\<lambda>x. x" and raw = example_batch
      and dicts = "[?d0, ?d1]" and T = 2 and E = 2 and process_experience_fn = example_process
      and state = "()" and m = 2 and D = 2 and agents = "[0, 1]" and prng = example_prng and key = "[]",
      OF unp batch E shp ag]
  obtain out where o: "process_experience_general_factory (\<lambda>x. x) example_prng example_process True True
                         () [] example_batch = Inr out"
    and p: "\<forall>c<2. length (out ! c) = 2 * (length [0, 1 :: nat] * 2)
                \<and> (\<forall>t<2. \<forall>i<length [0, 1 :: nat]. \<forall>e<2.
                     out ! c ! (t * (length [0, 1 :: nat] * 2) + i * 2 + e)
                     = example_process ()
                         (example_prng (carried_env_key example_prng [] (replicate i 2)) (Suc 2) (Suc e))
                         (experience_type (map (\<lambda>d. Array1 (column e (dict_get d ([0, 1] ! i)))) [?d0, ?d1]))
                       ! c ! t)"
    by blast
  have out0: "out ! 0 = ?o0" using o example_run by auto
  have a: "length ?o0 = 2 * (2 * 2)"
    using p[rule_format, of 0, THEN conjunct1] out0 by simp
  have k: "example_prng (carried_env_key example_prng [] (replicate 1 2)) (Suc 2) (Suc 0) = [1, 0]"
    by (simp add: example_prng_def)
  have cols: "map (\<lambda>d. Array1 (column 0 (dict_get d ([0, 1 :: nat] ! 1)))) [?d0, ?d1]
                = [Array1 [10, 12], Array1 [40, 42]]"
    by (simp add: dict_get_def column_def)
  have b: "?o0 ! (1 * (2 * 2) + 1 * 2 + 0)
       = example_process () [1, 0] (experience_type [Array1 [10, 12], Array1 [40, 42]]) ! 0 ! 1"
    using p[rule_format, of 0, THEN conjunct2, rule_format, of 1 1 0] out0
    by (simp only: k cols) simp
  from example_run a b show ?thesis by blast
qed

theorem vectorized_parallel_leading_dimension_counterexample:
  "\<not> (\<exists>out. process_experience_general_factory (\<lambda>x. x) example_prng example_process True True () []
               example_batch = Inr out
           \<and> length (out ! 0) = 2 * 2)"
  using example_run by auto

lemma sequence_squeeze_expand: "sequence (map (\<lambda>x. squeeze0 (expand_dims0 x)) xs) = Inr xs"
  by (induction xs) (simp_all add: squeeze0_expand_dims0)

text \<open>
  C6. With one environment and one agent (neither vectorized nor parallel), the
  action-sampling lift calls the wrapped function on the inputs with a leading axis of
  size one inserted and removes that axis from its outputs; the result is the direct
  call's whenever the wrapped function maps the inputs with the extra axis to its outputs
  with the extra axis. The experience-processing lift returns what the wrapped function
  returns on the stacked experience, with the same state and key.
\<close>

theorem degenerate_lift:
  "explore_general_factory fn_parallel explore_fn False False state key trees
     = sequence (map squeeze0 (explore_fn state key (map expand_dims0 trees)))
   \<and> (explore_fn state key (map expand_dims0 trees) = map expand_dims0 (explore_fn state key trees) \<longrightarrow>
        explore_general_factory fn_parallel explore_fn False False state key trees
          = Inr (explore_fn state key trees))
   \<and> process_experience_general_factory stack_experiences prng process_experience_fn False False
         pstate pkey raw
       = Inr (process_experience_fn pstate pkey (stack_experiences raw))"
  by (simp add: explore_general_factory_def input_fn_def output_fn_def
      process_experience_general_factory_def sequence_squeeze_expand comp_def)

theorem degenerate_lift_witness:
  "example_add_key () 5 (map expand_dims0 [NDArray [3] [7, 8, 9]])
     = map expand_dims0 (example_add_key () 5 [NDArray [3] [7, 8, 9]])
   \<and> explore_general_factory (\<lambda>f. f) example_add_key False False () 5 [NDArray [3] [7, 8, 9]]
       = Inr [NDArray [3] [12, 13, 14]]
   \<and> process_experience_general_factory (\<lambda>x. x) example_prng example_process False False () [4]
         \<lparr>observation = Array1 [1, 2], others = [Array1 [3, 4]]\<rparr>
       = Inr [[([4], 1), ([4], 2)], [([4], 3), ([4], 4)]]"
proof -
  have c: "example_add_key () 5 (map expand_dims0 [NDArray [3] [7, 8, 9]])
     = map expand_dims0 (example_add_key () 5 [NDArray [3] [7, 8, 9]])"
    by (simp add: example_add_key_def expand_dims0_def)
  note t = degenerate_lift[where explore_fn = example_add_key and state = "()" and key = 5
      and trees = "[NDArray [3] [7, 8, 9]]" and fn_parallel = "\<lambda>f. f"
      and stack_experiences = "\<lambda>x. x" and prng = example_prng
      and process_experience_fn = example_process and pstate = "()" and pkey = "[4]"
      and raw = "\<lparr>observation = Array1 [1, 2], others = [Array1 [3, 4]]\<rparr>"]
  have a: "explore_general_factory (\<lambda>f. f) example_add_key False False () 5 [NDArray [3] [7, 8, 9]]
       = Inr [NDArray [3] [12, 13, 14]]"
    using t[THEN conjunct2, THEN conjunct1, rule_format, OF c]
    by (simp add: example_add_key_def)
  have b: "process_experience_general_factory (\<lambda>x. x) example_prng example_process False False () [4]
         \<lparr>observation = Array1 [1, 2], others = [Array1 [3, 4]]\<rparr>
       = Inr [[([4], 1), ([4], 2)], [([4], 3), ([4], 4)]]"
    using t[THEN conjunct2, THEN conjunct2] by (simp add: example_process_def)
  from c a b show ?thesis by blast
qed

theorem degenerate_lift_counterexample:
  "explore_general_factory (\<lambda>f. f) example_batch_size False False () 5 [NDArray [3] [7, 8, 9]]
     = Inr [NDArray [] [1]]
   \<and> example_batch_size () 5 [NDArray [3] [7, 8, 9]] = [NDArray [1] [3]]
   \<and> explore_general_factory (\<lambda>f. f) example_batch_size False False () 5 [NDArray [3] [7, 8, 9]]
     \<noteq> Inr (example_batch_size () 5 [NDArray [3] [7, 8, 9]])"
  by (simp add: explore_general_factory_def input_fn_def output_fn_def example_batch_size_def
      expand_dims0_def squeeze0_def)








end
